theory Spec2Isabelle
  imports Main "HOL-Library.Sublist"
begin

section \<open>Strings of the host language\<close>

text \<open>
  The program is TypeScript. Its strings are modelled as \<^typ>\<open>string\<close>: the text
  in UTF-8, one \<^typ>\<open>char\<close> per byte, which for ASCII text is one per code unit.
  The white space of \<open>String.prototype.trim\<close> is modelled by its six ASCII
  characters: tab, line feed, vertical tab, form feed, carriage return and space
  (the other white space characters of the language lie outside ASCII).
\<close>

definition white_space :: "char \<Rightarrow> bool" where
  "white_space c \<longleftrightarrow> c \<in> {CHR 0x09, CHR 0x0A, CHR 0x0B, CHR 0x0C, CHR 0x0D, CHR 0x20}"

text \<open>\<open>s.trim()\<close>: white space is removed at both ends.\<close>

definition trim :: "string \<Rightarrow> string" where
  "trim s = rev (dropWhile white_space (rev (dropWhile white_space s)))"

text \<open>\<open>s.includes(t)\<close> and \<open>s.endsWith(t)\<close>.\<close>

definition includes_str :: "string \<Rightarrow> string \<Rightarrow> bool" where
  "includes_str s t = sublist t s"

definition endsWith :: "string \<Rightarrow> string \<Rightarrow> bool" where
  "endsWith s t = suffix t s"

text \<open>
  \<open>s.split(sep)\<close> scans \<open>s\<close> from the left; at the first position where \<open>sep\<close>
  matches, the piece read so far is closed and the scan goes on behind the match.
  \<open>split_on\<close> is the scan for a separator that is not empty; with the empty separator
  the string falls into its code units.
\<close>

function split_on :: "string \<Rightarrow> string \<Rightarrow> string list" where
  "split_on sep [] = [[]]"
| "split_on sep (c # cs) =
     (if sep \<noteq> [] \<and> prefix sep (c # cs)
      then [] # split_on sep (drop (length sep) (c # cs))
      else (case split_on sep cs of [] \<Rightarrow> [[c]] | p # ps \<Rightarrow> (c # p) # ps))"
  by pat_completeness auto
termination
  by (relation "measure (\<lambda>(sep, s). length s)") (auto simp: neq_Nil_conv)

definition split_str :: "string \<Rightarrow> string \<Rightarrow> string list" where
  "split_str s sep = (if sep = [] then map (\<lambda>c. [c]) s else split_on sep s)"

text \<open>\<open>xs.join(sep)\<close>.\<close>

fun join_strings :: "string list \<Rightarrow> string \<Rightarrow> string" where
  "join_strings [] sep = []"
| "join_strings [x] sep = x"
| "join_strings (x # y # ys) sep = x @ sep @ join_strings (y # ys) sep"

text \<open>A number in a template literal: its decimal digits.\<close>

fun string_of_nat :: "nat \<Rightarrow> string" where
  "string_of_nat n =
     (if n < 10 then [''0123456789'' ! n]
      else string_of_nat (n div 10) @ [''0123456789'' ! (n mod 10)])"

declare string_of_nat.simps [simp del]

definition string_of_int :: "int \<Rightarrow> string" where
  "string_of_int i = (if i < 0 then ''-'' @ string_of_nat (nat (- i)) else string_of_nat (nat i))"

section \<open>Errors and results\<close>

text \<open>
  A thrown value. \<open>Error msg\<close> is \<open>new Error(msg)\<close>; \<open>TypeError\<close> and
  \<open>SyntaxError\<close> are raised by the language itself (a method call on
  \<open>undefined\<close>, \<open>JSON.parse\<close>); \<open>SystemError code path\<close> is a failed file-system
  call. A computation that may throw returns \<open>js_error + 'a\<close>, \<open>Inl\<close> the thrown value.
\<close>

datatype js_error =
    Error string
  | TypeError string
  | SyntaxError string
  | SystemError string string

text \<open>
  A computation that writes lines to the console before it returns or throws:
  the lines written, then the outcome.
\<close>

type_synonym 'a logged = "string list \<times> (js_error + 'a)"

definition and_then :: "'a logged \<Rightarrow> ('a \<Rightarrow> 'b logged) \<Rightarrow> 'b logged" where
  "and_then m f =
     (case m of
        (ls, Inl e) \<Rightarrow> (ls, Inl e)
      | (ls, Inr x) \<Rightarrow> (case f x of (ls', r) \<Rightarrow> (ls @ ls', r)))"

section \<open>core/git.ts\<close>

subsection \<open>Running git\<close>

text \<open>
  What \<open>crossSpawnAsync\<close> resolves with: the fields of the result that \<open>gitExec\<close>
  reads. \<open>exitCode\<close> is a number or \<open>null\<close>. The promise may also reject.
  The git process is a parameter of the model, a function from the arguments and the
  working directory to that outcome.
\<close>

record SpawnReturns =
  error :: "js_error option"
  exitCode :: "int option"
  stdout :: string
  stderr :: string

type_synonym git_process = "string list \<Rightarrow> string option \<Rightarrow> js_error + SpawnReturns"

text \<open>
  \<open>.replace(/\\r?\\n?$/, '')\<close> in \<open>gitExec\<close>. In the regular-expression literal
  each \<open>\\\<close> is an escaped backslash, so the pattern is: a backslash, an optional
  letter r, a backslash, an optional letter n, the end of the input. The leftmost
  match is removed; the four possible matches are tried from the longest.
\<close>

definition backslash :: char where
  "backslash = CHR 0x5C"

definition replace_trailing_escapes :: "string \<Rightarrow> string" where
  "replace_trailing_escapes s =
     (if suffix [backslash, CHR ''r'', backslash, CHR ''n''] s then take (length s - 4) s
      else if suffix [backslash, CHR ''r'', backslash] s then take (length s - 3) s
      else if suffix [backslash, backslash, CHR ''n''] s then take (length s - 3) s
      else if suffix [backslash, backslash] s then take (length s - 2) s
      else s)"

definition show_exitCode :: "int option \<Rightarrow> string" where
  "show_exitCode c = (case c of None \<Rightarrow> ''null'' | Some i \<Rightarrow> string_of_int i)"

definition gitExec :: "git_process \<Rightarrow> string list \<Rightarrow> string option \<Rightarrow> string logged" where
  "gitExec spawn args cwd =
     (case spawn args cwd of
        Inl e \<Rightarrow> ([], Inl e)
      | Inr output \<Rightarrow>
          (case error output of
             Some e \<Rightarrow> ([], Inl e)
           | None \<Rightarrow>
               if exitCode output \<noteq> Some 0
               then ([stderr output, stdout output],
                     Inl (Error (''Invalid status code from git output: ''
                                 @ show_exitCode (exitCode output))))
               else ([], Inr (trim (replace_trailing_escapes (stdout output))))))"

subsection \<open>Reading the log\<close>

definition delim1 :: string where
  "delim1 = ''E2B4D2F3-B7AF-4377-BF0F-D81F4E0723F3''"

definition delim2 :: string where
  "delim2 = ''25B7DA41-228B-4679-B2A2-86E328D3C3DE''"









subsection \<open>The fingerprint of the working tree\<close>

definition cleanedStatus :: "string \<Rightarrow> string" where
  "cleanedStatus status =
     join_strings
       (filter (\<lambda>l. \<not> (includes_str l ''package.json'' \<or> includes_str l ''CHANGELOG.md''))
          (split_str status [CHR 0x0A]))
       [CHR 0x0A]"

text \<open>
  \<open>gitStatusHash\<close>. The digest (\<open>createHash('sha256')\<close>, both updates, then
  \<open>digest().toString('base64')\<close>) is a parameter: it is applied to the commit id
  followed by the cleaned status.
\<close>

definition gitStatusHash :: "(string \<Rightarrow> string) \<Rightarrow> git_process \<Rightarrow> string \<Rightarrow> string logged" where
  "gitStatusHash sha256_base64 spawn this_cwd =
     and_then (gitExec spawn [''rev-parse'', ''--revs-only'', ''HEAD''] (Some this_cwd)) (\<lambda>commit.
     and_then (gitExec spawn [''status'', ''--porcelain''] (Some this_cwd)) (\<lambda>status.
       ([], Inr (sha256_base64 (commit @ cleanedStatus status)))))"

section \<open>JSON values\<close>

text \<open>
  The values of \<open>JSON.parse\<close>. An object is the list of its own properties in the
  order in which the language enumerates them (array-index keys first, in ascending
  order, then the other keys in the order of their creation), each key once.
  A number is kept as its literal (the language would hold a double and print its
  shortest decimal).
\<close>

datatype json =
    JNull
  | JBool bool
  | JNumber string
  | JString string
  | JArray "json list"
  | JObject "(string \<times> json) list"

definition digit_char :: "char \<Rightarrow> bool" where
  "digit_char c \<longleftrightarrow> 48 \<le> (of_char c :: nat) \<and> (of_char c :: nat) \<le> 57"

definition nat_of_digits :: "string \<Rightarrow> nat" where
  "nat_of_digits ds = foldl (\<lambda>n c. 10 * n + (of_char c - 48)) 0 ds"

text \<open>An array index: the canonical decimal form of a number below \<open>2^32 - 1\<close>.\<close>

definition is_array_index :: "string \<Rightarrow> bool" where
  "is_array_index k \<longleftrightarrow>
     k \<noteq> [] \<and> list_all digit_char k \<and> (k = ''0'' \<or> hd k \<noteq> CHR ''0'') \<and> nat_of_digits k < 4294967295"

fun replace_value :: "(string \<times> json) list \<Rightarrow> string \<Rightarrow> json \<Rightarrow> (string \<times> json) list" where
  "replace_value [] k v = []"
| "replace_value ((k', v') # ps) k v =
     (if k' = k then (k, v) # ps else (k', v') # replace_value ps k v)"

fun insert_index :: "(string \<times> json) list \<Rightarrow> string \<Rightarrow> json \<Rightarrow> (string \<times> json) list" where
  "insert_index [] k v = [(k, v)]"
| "insert_index ((k', v') # ps) k v =
     (if is_array_index k' \<and> nat_of_digits k' < nat_of_digits k
      then (k', v') # insert_index ps k v
      else (k, v) # (k', v') # ps)"

text \<open>
  Defining the property \<open>k\<close> of an object: an existing property keeps its place and
  takes the new value; a new one goes among the array indices or to the end.
\<close>

definition obj_put :: "(string \<times> json) list \<Rightarrow> string \<Rightarrow> json \<Rightarrow> (string \<times> json) list" where
  "obj_put ps k v =
     (if k \<in> set (map fst ps) then replace_value ps k v
      else if is_array_index k then insert_index ps k v
      else ps @ [(k, v)])"

subsection \<open>\<open>JSON.parse\<close>\<close>

definition json_ws :: "char \<Rightarrow> bool" where
  "json_ws c \<longleftrightarrow> c \<in> {CHR 0x20, CHR 0x09, CHR 0x0A, CHR 0x0D}"

definition skip_ws :: "string \<Rightarrow> string" where
  "skip_ws s = dropWhile json_ws s"

definition hex_val :: "char \<Rightarrow> nat option" where
  "hex_val c =
     (let n = (of_char c :: nat) in
      if 48 \<le> n \<and> n \<le> 57 then Some (n - 48)
      else if 65 \<le> n \<and> n \<le> 70 then Some (n - 55)
      else if 97 \<le> n \<and> n \<le> 102 then Some (n - 87)
      else None)"

definition hex4 :: "char \<Rightarrow> char \<Rightarrow> char \<Rightarrow> char \<Rightarrow> nat option" where
  "hex4 a b c d =
     (case (hex_val a, hex_val b, hex_val c, hex_val d) of
        (Some x, Some y, Some z, Some u) \<Rightarrow> Some (((x * 16 + y) * 16 + z) * 16 + u)
      | _ \<Rightarrow> None)"

text \<open>
  A code unit given by a \<open>\\u\<close> escape, as the bytes that stand for it in the
  file (UTF-8; the two halves of a surrogate pair are kept apart).
\<close>

definition utf8 :: "nat \<Rightarrow> string" where
  "utf8 n =
     (if n < 128 then [char_of n]
      else if n < 2048 then [char_of (192 + n div 64), char_of (128 + n mod 64)]
      else [char_of (224 + n div 4096), char_of (128 + (n div 64) mod 64), char_of (128 + n mod 64)])"

definition unescape :: "char \<Rightarrow> char option" where
  "unescape e =
     (if e = CHR 0x22 then Some (CHR 0x22)
      else if e = backslash then Some backslash
      else if e = CHR ''/'' then Some (CHR ''/'')
      else if e = CHR ''b'' then Some (CHR 0x08)
      else if e = CHR ''f'' then Some (CHR 0x0C)
      else if e = CHR ''n'' then Some (CHR 0x0A)
      else if e = CHR ''r'' then Some (CHR 0x0D)
      else if e = CHR ''t'' then Some (CHR 0x09)
      else None)"

text \<open>The characters of a string literal behind its opening quote, up to the closing one.\<close>

fun parse_chars :: "string \<Rightarrow> (string \<times> string) option" where
  "parse_chars [] = None"
| "parse_chars (c # cs) =
     (if c = CHR 0x22 then Some ([], cs)
      else if c = backslash then
        (case cs of
           [] \<Rightarrow> None
         | e # r \<Rightarrow>
             if e = CHR ''u'' then
               (case r of
                  h1 # h2 # h3 # h4 # r' \<Rightarrow>
                    (case hex4 h1 h2 h3 h4 of
                       None \<Rightarrow> None
                     | Some n \<Rightarrow>
                         (case parse_chars r' of
                            None \<Rightarrow> None
                          | Some (s, rest) \<Rightarrow> Some (utf8 n @ s, rest)))
                | _ \<Rightarrow> None)
             else
               (case unescape e of
                  None \<Rightarrow> None
                | Some ch \<Rightarrow>
                    (case parse_chars r of
                       None \<Rightarrow> None
                     | Some (s, rest) \<Rightarrow> Some (ch # s, rest))))
      else if (of_char c :: nat) < 32 then None
      else (case parse_chars cs of None \<Rightarrow> None | Some (s, rest) \<Rightarrow> Some (c # s, rest)))"

definition parse_fraction :: "string \<Rightarrow> string option" where
  "parse_fraction s =
     (case s of
        [] \<Rightarrow> Some s
      | c # r \<Rightarrow>
          if c = CHR ''.'' then (if takeWhile digit_char r = [] then None else Some (dropWhile digit_char r))
          else Some s)"

definition parse_exponent :: "string \<Rightarrow> string option" where
  "parse_exponent s =
     (case s of
        [] \<Rightarrow> Some s
      | c # r \<Rightarrow>
          if c = CHR ''e'' \<or> c = CHR ''E'' then
            (let r1 = (case r of [] \<Rightarrow> r | c2 # r2 \<Rightarrow> if c2 = CHR ''+'' \<or> c2 = CHR ''-'' then r2 else r)
             in if takeWhile digit_char r1 = [] then None else Some (dropWhile digit_char r1))
          else Some s)"

text \<open>A number literal: the literal read and the rest of the input.\<close>

definition parse_number :: "string \<Rightarrow> (string \<times> string) option" where
  "parse_number s =
     (let s1 = (if prefix ''-'' s then tl s else s); ds = takeWhile digit_char s1
      in if ds = [] \<or> (hd ds = CHR ''0'' \<and> tl ds \<noteq> []) then None
         else (case parse_fraction (dropWhile digit_char s1) of
                 None \<Rightarrow> None
               | Some s3 \<Rightarrow>
                   (case parse_exponent s3 of
                      None \<Rightarrow> None
                    | Some s4 \<Rightarrow> Some (take (length s - length s4) s, s4))))"

text \<open>
  The value at the head of the input and the rest of the input. The first argument
  bounds the number of nested calls; \<open>JSON_parse\<close> starts with a bound that a text
  of that length cannot reach (lemma \<open>fuel_enough\<close> below).
\<close>

fun parse_value :: "nat \<Rightarrow> string \<Rightarrow> (json \<times> string) option"
  and parse_elements :: "nat \<Rightarrow> json list \<Rightarrow> string \<Rightarrow> (json \<times> string) option"
  and parse_members :: "nat \<Rightarrow> (string \<times> json) list \<Rightarrow> string \<Rightarrow> (json \<times> string) option"
where
  "parse_value 0 s = None"
| "parse_value (Suc n) s =
     (case skip_ws s of
        [] \<Rightarrow> None
      | c # cs \<Rightarrow>
          if c = CHR ''{'' then
            (case skip_ws cs of
               [] \<Rightarrow> None
             | c' # r \<Rightarrow> if c' = CHR ''}'' then Some (JObject [], r) else parse_members n [] cs)
          else if c = CHR ''['' then
            (case skip_ws cs of
               [] \<Rightarrow> None
             | c' # r \<Rightarrow> if c' = CHR '']'' then Some (JArray [], r) else parse_elements n [] cs)
          else if c = CHR 0x22 then
            (case parse_chars cs of None \<Rightarrow> None | Some (str, r) \<Rightarrow> Some (JString str, r))
          else if prefix ''true'' (c # cs) then Some (JBool True, drop 4 (c # cs))
          else if prefix ''false'' (c # cs) then Some (JBool False, drop 5 (c # cs))
          else if prefix ''null'' (c # cs) then Some (JNull, drop 4 (c # cs))
          else (case parse_number (c # cs) of None \<Rightarrow> None | Some (lit, r) \<Rightarrow> Some (JNumber lit, r)))"
| "parse_elements 0 acc s = None"
| "parse_elements (Suc n) acc s =
     (case parse_value n s of
        None \<Rightarrow> None
      | Some (v, r) \<Rightarrow>
          (case skip_ws r of
             [] \<Rightarrow> None
           | c # r' \<Rightarrow>
               if c = CHR '','' then parse_elements n (acc @ [v]) r'
               else if c = CHR '']'' then Some (JArray (acc @ [v]), r')
               else None))"
| "parse_members 0 acc s = None"
| "parse_members (Suc n) acc s =
     (case skip_ws s of
        [] \<Rightarrow> None
      | q # r0 \<Rightarrow>
          if q \<noteq> CHR 0x22 then None
          else (case parse_chars r0 of
                  None \<Rightarrow> None
                | Some (k, r1) \<Rightarrow>
                    (case skip_ws r1 of
                       [] \<Rightarrow> None
                     | c1 # r2 \<Rightarrow>
                         if c1 \<noteq> CHR '':'' then None
                         else (case parse_value n r2 of
                                 None \<Rightarrow> None
                               | Some (v, r3) \<Rightarrow>
                                   (case skip_ws r3 of
                                      [] \<Rightarrow> None
                                    | c3 # r4 \<Rightarrow>
                                        if c3 = CHR '','' then parse_members n (obj_put acc k v) r4
                                        else if c3 = CHR ''}'' then Some (JObject (obj_put acc k v), r4)
                                        else None)))))"

text \<open>\<open>JSON.parse(text)\<close>; \<open>None\<close> is the \<open>SyntaxError\<close> it throws.\<close>

definition JSON_parse :: "string \<Rightarrow> json option" where
  "JSON_parse text =
     (case parse_value (2 * length text + 2) text of
        None \<Rightarrow> None
      | Some (v, rest) \<Rightarrow> if skip_ws rest = [] then Some v else None)"

subsection \<open>\<open>JSON.stringify\<close>\<close>

definition hex_digit :: "nat \<Rightarrow> char" where
  "hex_digit n = ''0123456789abcdef'' ! n"

definition quote_char :: "char \<Rightarrow> string" where
  "quote_char c =
     (if c = CHR 0x22 then [backslash, CHR 0x22]
      else if c = backslash then [backslash, backslash]
      else if c = CHR 0x08 then [backslash, CHR ''b'']
      else if c = CHR 0x0C then [backslash, CHR ''f'']
      else if c = CHR 0x0A then [backslash, CHR ''n'']
      else if c = CHR 0x0D then [backslash, CHR ''r'']
      else if c = CHR 0x09 then [backslash, CHR ''t'']
      else if (of_char c :: nat) < 32
        then [backslash, CHR ''u'', CHR ''0'', CHR ''0'', hex_digit (of_char c div 16), hex_digit (of_char c mod 16)]
      else [c])"

definition QuoteJSONString :: "string \<Rightarrow> string" where
  "QuoteJSONString s = [CHR 0x22] @ concat (map quote_char s) @ [CHR 0x22]"

text \<open>
  The serialisation with the gap of two spaces; \<open>ind\<close> is the current indentation.
  An empty array or object is written without a line break.
\<close>

fun SerializeJSONProperty :: "string \<Rightarrow> json \<Rightarrow> string" where
  "SerializeJSONProperty ind JNull = ''null''"
| "SerializeJSONProperty ind (JBool b) = (if b then ''true'' else ''false'')"
| "SerializeJSONProperty ind (JNumber lit) = lit"
| "SerializeJSONProperty ind (JString s) = QuoteJSONString s"
| "SerializeJSONProperty ind (JArray vs) =
     (if vs = [] then ''[]''
      else ''['' @ [CHR 0x0A] @ (ind @ ''  '')
           @ join_strings (map (SerializeJSONProperty (ind @ ''  '')) vs) ('','' @ [CHR 0x0A] @ (ind @ ''  ''))
           @ [CHR 0x0A] @ ind @ '']'')"
| "SerializeJSONProperty ind (JObject ps) =
     (if ps = [] then ''{}''
      else ''{'' @ [CHR 0x0A] @ (ind @ ''  '')
           @ join_strings
               (map (\<lambda>kv. QuoteJSONString (fst kv) @ '': '' @ SerializeJSONProperty (ind @ ''  '') (snd kv)) ps)
               ('','' @ [CHR 0x0A] @ (ind @ ''  ''))
           @ [CHR 0x0A] @ ind @ ''}'')"

text \<open>\<open>JSON.stringify(value, null, 2)\<close>.\<close>

definition JSON_stringify :: "json \<Rightarrow> string" where
  "JSON_stringify v = SerializeJSONProperty [] v"

section \<open>The file system and the paths\<close>

text \<open>
  What the program sees of its host: \<open>files\<close> is \<open>readFile(path, 'utf-8')\<close>, the
  text of the file or the error the call rejects with; \<open>glob\<close> is the result of
  the \<open>glob\<close> library for a list of patterns and a working directory;
  \<open>write_failure\<close> is the error with which a write to the path is rejected, if it is.
\<close>

record world =
  files :: "string \<Rightarrow> js_error + string"
  glob :: "string list \<Rightarrow> string \<Rightarrow> string list"
  write_failure :: "string \<Rightarrow> js_error option"

definition readFile :: "world \<Rightarrow> string \<Rightarrow> js_error + string" where
  "readFile w path = files w path"

definition writeFile :: "world \<Rightarrow> string \<Rightarrow> string \<Rightarrow> js_error + world" where
  "writeFile w path content =
     (case write_failure w path of
        Some e \<Rightarrow> Inl e
      | None \<Rightarrow> Inr (w\<lparr>files := (files w)(path := Inr content)\<rparr>))"

text \<open>\<open>path.join\<close> of two segments, on a POSIX host: the segments that are not empty
  are joined by a slash and the result is normalised.\<close>

fun normalizeString :: "bool \<Rightarrow> string list \<Rightarrow> string list \<Rightarrow> string list" where
  "normalizeString allowAboveRoot res [] = res"
| "normalizeString allowAboveRoot res (seg # segs) =
     (if seg = [] \<or> seg = ''.'' then normalizeString allowAboveRoot res segs
      else if seg = ''..'' then
        (if res \<noteq> [] \<and> last res \<noteq> ''..'' then normalizeString allowAboveRoot (butlast res) segs
         else if allowAboveRoot then normalizeString allowAboveRoot (res @ [''..'']) segs
         else normalizeString allowAboveRoot res segs)
      else normalizeString allowAboveRoot (res @ [seg]) segs)"

definition normalize :: "string \<Rightarrow> string" where
  "normalize path =
     (if path = [] then ''.''
      else let isAbsolute = (hd path = CHR ''/'');
               trailingSeparator = (last path = CHR ''/'');
               p = join_strings (normalizeString (\<not> isAbsolute) [] (split_str path ''/'')) ''/''
           in if p = [] then (if isAbsolute then ''/'' else if trailingSeparator then ''./'' else ''.'')
              else (if isAbsolute then ''/'' else []) @ p @ (if trailingSeparator then ''/'' else []))"

definition path_join :: "string \<Rightarrow> string \<Rightarrow> string" where
  "path_join a b =
     (if a = [] \<and> b = [] then ''.''
      else if a = [] then normalize b
      else if b = [] then normalize a
      else normalize (a @ ''/'' @ b))"

section \<open>plugins/embedded/gradle/gradle-project.ts\<close>

subsection \<open>The manifest file\<close>

text \<open>
  The validators of the \<open>typanion\<close> library that \<open>isGradleBuildFile\<close> is built
  from. A property that the object does not have reads as \<open>undefined\<close>, here
  \<open>None\<close>: an optional property accepts it, a required one does not.
\<close>

definition isString :: "json option \<Rightarrow> bool" where
  "isString v = (case v of Some (JString _) \<Rightarrow> True | _ \<Rightarrow> False)"

definition isBoolean :: "json option \<Rightarrow> bool" where
  "isBoolean v = (case v of Some (JBool _) \<Rightarrow> True | _ \<Rightarrow> False)"

definition isArray :: "(json option \<Rightarrow> bool) \<Rightarrow> json option \<Rightarrow> bool" where
  "isArray spec v = (case v of Some (JArray vs) \<Rightarrow> list_all (\<lambda>x. spec (Some x)) vs | _ \<Rightarrow> False)"

definition isOptional :: "(json option \<Rightarrow> bool) \<Rightarrow> json option \<Rightarrow> bool" where
  "isOptional spec v = (v = None \<or> spec v)"

text \<open>
  \<open>isGradleBuildFile\<close>, a partial object: the four properties are checked, any other
  property is allowed. Only an object can pass (a \<open>name\<close> is required).
\<close>

definition isGradleBuildFile :: "json \<Rightarrow> bool" where
  "isGradleBuildFile content =
     (case content of
        JObject ps \<Rightarrow>
          isOptional isString (map_of ps ''version'')
          \<and> isString (map_of ps ''name'')
          \<and> isOptional isBoolean (map_of ps ''private'')
          \<and> isOptional (isArray isString) (map_of ps ''workspaces'')
      | _ \<Rightarrow> False)"

text \<open>\<open>GradleManifestContent\<close>; the manifest is the object, as the list of its properties.\<close>

record GradleManifestContent =
  manifest :: "(string \<times> json) list"
  eofInEnd :: bool

definition GRADLE_MANIFEST_NAME :: string where
  "GRADLE_MANIFEST_NAME = ''build.gradle''"

text \<open>\<open>loadGradleBuildFile\<close>; \<open>Inr None\<close> is the result \<open>null\<close>.\<close>

definition loadGradleBuildFile :: "world \<Rightarrow> string \<Rightarrow> js_error + GradleManifestContent option" where
  "loadGradleBuildFile w folder =
     (case readFile w (path_join folder GRADLE_MANIFEST_NAME) of
        Inl e \<Rightarrow> Inl e
      | Inr stringContent \<Rightarrow>
          (case JSON_parse stringContent of
             None \<Rightarrow> Inl (SyntaxError ''JSON.parse'')
           | Some content \<Rightarrow>
               if isGradleBuildFile content
               then Inr (Some \<lparr>manifest = (case content of JObject ps \<Rightarrow> ps | _ \<Rightarrow> []),
                                eofInEnd = endsWith stringContent [CHR 0x0A]\<rparr>)
               else Inr None))"

definition persistGradleBuildFile :: "world \<Rightarrow> string \<Rightarrow> GradleManifestContent \<Rightarrow> js_error + world" where
  "persistGradleBuildFile w folder manifestContent =
     writeFile w (path_join folder GRADLE_MANIFEST_NAME)
       (JSON_stringify (JObject (manifest manifestContent))
        @ (if eofInEnd manifestContent then [CHR 0x0A] else []))"

subsection \<open>The configuration\<close>

text \<open>
  Modelled from the spec: the declarations of \<open>IConfiguration\<close> and
  \<open>IPluginInitialize\<close> (core/configuration, plugins/index) are not among the
  sources. The spec lists the options \<open>independentVersioning: bool\<close> and
  \<open>versionTagPrefix: string\<close>; the source reads \<open>initialize.cwd\<close> and
  \<open>config.options\<close>, and passes the \<open>IPluginInitialize\<close> itself as the configuration.
\<close>

record ConfigurationOptions =
  independentVersioning :: bool
  versionTagPrefix :: string

record IPluginInitialize =
  cwd :: string
  options :: ConfigurationOptions

subsection \<open>Workspaces and the project, as objects in a store\<close>

text \<open>
  An object of class \<open>GradleWorkspace\<close> or \<open>GradleProject\<close>. A reference is the
  position of the object in the store. \<open>project_field\<close> is \<open>_project\<close>
  (\<open>None\<close>: \<open>undefined\<close>); \<open>as_project\<close> holds the fields that \<open>GradleProject\<close>
  adds and is \<open>None\<close> on a plain workspace.
\<close>

record GradleProject_fields =
  cwd_field :: string
  config_field :: IPluginInitialize
  childWorkspaces :: "nat list"

record gradle_object =
  project_field :: "nat option"
  manifestContent :: GradleManifestContent
  relativeCwd :: string
  as_project :: "GradleProject_fields option"

type_synonym store = "gradle_object list"

definition object_at :: "store \<Rightarrow> nat \<Rightarrow> gradle_object option" where
  "object_at h a = (if a < length h then Some (h ! a) else None)"

text \<open>
  \<open>manifest.name\<close>, a string by the type \<open>GradleManifest\<close>; \<open>None\<close> when the
  manifest has no such string.
\<close>

definition manifest_name :: "(string \<times> json) list \<Rightarrow> string option" where
  "manifest_name ps = (case map_of ps ''name'' of Some (JString n) \<Rightarrow> Some n | _ \<Rightarrow> None)"

definition invalid_manifest :: "string \<Rightarrow> js_error" where
  "invalid_manifest relCwd =
     Error (''Invalid manifest. Package at '' @ [CHR 0x27] @ relCwd @ [CHR 0x27] @ '' does not have a name'')"

text \<open>
  The constructor of \<open>GradleWorkspace\<close>: \<open>!this.manifest.name\<close> holds for a missing and
  for an empty name. The new object is put at the end of the store.
\<close>

definition new_GradleWorkspace ::
  "store \<Rightarrow> nat option \<Rightarrow> string \<Rightarrow> GradleManifestContent \<Rightarrow> js_error + store \<times> nat" where
  "new_GradleWorkspace h project relCwd mc =
     (if manifest_name (manifest mc) = None \<or> manifest_name (manifest mc) = Some []
      then Inl (invalid_manifest relCwd)
      else Inr (h @ [\<lparr>project_field = project, manifestContent = mc, relativeCwd = relCwd,
                       as_project = None\<rparr>], length h))"

text \<open>
  The constructor of \<open>GradleProject\<close>: the constructor of the superclass with
  \<open>undefined\<close> for the project and \<open>'.'\<close> for the path, then \<open>_project = this\<close>,
  \<open>_cwd\<close>, \<open>_config\<close>, and no child workspaces.
\<close>

definition new_GradleProject ::
  "store \<Rightarrow> string \<Rightarrow> GradleManifestContent \<Rightarrow> IPluginInitialize \<Rightarrow> js_error + store \<times> nat" where
  "new_GradleProject h dir mc config =
     (case new_GradleWorkspace h None ''.'' mc of
        Inl e \<Rightarrow> Inl e
      | Inr (h', this) \<Rightarrow>
          Inr (h'[this := (h' ! this)\<lparr>project_field := Some this,
                     as_project := Some \<lparr>cwd_field = dir, config_field = config, childWorkspaces = []\<rparr>\<rparr>],
               this))"

text \<open>The getters. \<open>None\<close>: the reference or the project behind it is not there.\<close>

definition get_project :: "store \<Rightarrow> nat \<Rightarrow> nat option" where
  "get_project h this =
     (case object_at h this of
        None \<Rightarrow> None
      | Some ob \<Rightarrow> (case as_project ob of Some _ \<Rightarrow> Some this | None \<Rightarrow> project_field ob))"

definition get_config :: "store \<Rightarrow> nat \<Rightarrow> IPluginInitialize option" where
  "get_config h this =
     (case get_project h this of
        None \<Rightarrow> None
      | Some p \<Rightarrow> (case object_at h p of
                     None \<Rightarrow> None
                   | Some pob \<Rightarrow> map_option config_field (as_project pob)))"

definition get_cwd :: "store \<Rightarrow> nat \<Rightarrow> string option" where
  "get_cwd h this =
     (case object_at h this of
        None \<Rightarrow> None
      | Some ob \<Rightarrow>
          (case as_project ob of
             Some pf \<Rightarrow> Some (cwd_field pf)
           | None \<Rightarrow>
               (case project_field ob of
                  None \<Rightarrow> None
                | Some p \<Rightarrow>
                    (case object_at h p of
                       None \<Rightarrow> None
                     | Some pob \<Rightarrow>
                         map_option (\<lambda>pf. path_join (cwd_field pf) (relativeCwd ob)) (as_project pob)))))"

definition packageName :: "store \<Rightarrow> nat \<Rightarrow> string option" where
  "packageName h this =
     (case object_at h this of
        None \<Rightarrow> None
      | Some ob \<Rightarrow> manifest_name (manifest (manifestContent ob)))"

definition tagPrefix :: "store \<Rightarrow> nat \<Rightarrow> string option" where
  "tagPrefix h this =
     (case (get_config h this, packageName h this) of
        (Some config, Some name) \<Rightarrow>
          Some (if independentVersioning (options config)
                then versionTagPrefix (options config) @ name @ ''@''
                else versionTagPrefix (options config))
      | _ \<Rightarrow> None)"

definition workspaces :: "store \<Rightarrow> nat \<Rightarrow> nat list option" where
  "workspaces h this =
     (case object_at h this of
        None \<Rightarrow> None
      | Some ob \<Rightarrow> map_option (\<lambda>pf. this # childWorkspaces pf) (as_project ob))"

subsection \<open>Discovery\<close>

text \<open>
  The function mapped over the paths in \<open>initialize\<close>: \<open>None\<close> is \<open>undefined\<close>,
  the candidate is left out.
\<close>

definition load_workspace ::
  "world \<Rightarrow> store \<Rightarrow> nat \<Rightarrow> string \<Rightarrow> string \<Rightarrow> js_error + store \<times> nat option" where
  "load_workspace w h project dir path =
     (case loadGradleBuildFile w (path_join dir path) of
        Inl e \<Rightarrow> Inl e
      | Inr None \<Rightarrow> Inr (h, None)
      | Inr (Some worspaceManifestContent) \<Rightarrow>
          if map_of (manifest worspaceManifestContent) ''private'' \<noteq> Some (JBool True)
          then (case new_GradleWorkspace h (Some project) path worspaceManifestContent of
                  Inl e \<Rightarrow> Inl e
                | Inr (h', a) \<Rightarrow> Inr (h', Some a))
          else Inr (h, None))"

text \<open>
  \<open>Promise.all\<close> over the candidates, then the filter: the references of the
  workspaces built, in the order of the paths. \<open>Promise.all\<close> rejects with the
  error of the promise that is rejected first; the candidates are taken in the order
  of the list here, so with several failing candidates the error of the first in the
  list is the one returned.
\<close>

fun load_workspaces ::
  "world \<Rightarrow> store \<Rightarrow> nat \<Rightarrow> string \<Rightarrow> string list \<Rightarrow> js_error + store \<times> nat list" where
  "load_workspaces w h project dir [] = Inr (h, [])"
| "load_workspaces w h project dir (path # paths) =
     (case load_workspace w h project dir path of
        Inl e \<Rightarrow> Inl e
      | Inr (h', r) \<Rightarrow>
          (case load_workspaces w h' project dir paths of
             Inl e \<Rightarrow> Inl e
           | Inr (h'', rs) \<Rightarrow> Inr (h'', (case r of None \<Rightarrow> rs | Some a \<Rightarrow> a # rs))))"

text \<open>The patterns of \<open>manifest.workspaces\<close>, when it is an array.\<close>

definition manifest_workspaces :: "(string \<times> json) list \<Rightarrow> string list option" where
  "manifest_workspaces ps =
     (case map_of ps ''workspaces'' of
        Some (JArray vs) \<Rightarrow> Some (concat (map (\<lambda>v. case v of JString s \<Rightarrow> [s] | _ \<Rightarrow> []) vs))
      | _ \<Rightarrow> None)"

text \<open>\<open>GradleProject.initialize\<close>; \<open>Inr (h, None)\<close> is the result \<open>null\<close>.\<close>

definition initialize :: "world \<Rightarrow> store \<Rightarrow> IPluginInitialize \<Rightarrow> js_error + store \<times> nat option" where
  "initialize w h init =
     (case loadGradleBuildFile w (cwd init) of
        Inl e \<Rightarrow> Inl e
      | Inr None \<Rightarrow> Inr (h, None)
      | Inr (Some mc) \<Rightarrow>
          (case new_GradleProject h (cwd init) mc init of
             Inl e \<Rightarrow> Inl e
           | Inr (h1, project) \<Rightarrow>
               (case manifest_workspaces (manifest mc) of
                  None \<Rightarrow> Inr (h1, Some project)
                | Some patterns \<Rightarrow>
                    (case load_workspaces w h1 project (cwd init) (glob w patterns (cwd init)) of
                       Inl e \<Rightarrow> Inl e
                     | Inr (h2, children) \<Rightarrow>
                         Inr (h2[project := (h2 ! project)\<lparr>as_project :=
                                   map_option (\<lambda>pf. pf\<lparr>childWorkspaces := children\<rparr>)
                                     (as_project (h2 ! project))\<rparr>],
                              Some project)))))"

subsection \<open>Writing a version\<close>


section \<open>The output of git log\<close>

text \<open>
  What git substitutes for \<open>%s\<close>, \<open>%cI\<close>, \<open>%H\<close> and \<open>%b\<close> in one commit, and the
  output of \<open>git log\<close> under \<open>formatFlag\<close>: the expanded format of each commit, the
  commits separated by a line feed (the \<open>format:\<close> prefix makes the line feed a
  separator).
\<close>

record log_record =
  rec_subject :: string
  rec_date :: string
  rec_hash :: string
  rec_body :: string

definition entry_text :: "log_record \<Rightarrow> string" where
  "entry_text r = rec_subject r @ delim1 @ rec_date r @ delim1 @ rec_hash r @ delim1 @ rec_body r"


text \<open>
  The sentinels stand in the expansion of a commit only where the format put them:
  no occurrence of the record sentinel begins before the end of the entry, and no
  occurrence of the field sentinel begins inside a field.
\<close>

definition sentinels_in_place :: "log_record \<Rightarrow> bool" where
  "sentinels_in_place r \<longleftrightarrow>
     \<not> sublist delim2 (entry_text r @ butlast delim2)
     \<and> \<not> sublist delim1 (rec_subject r @ butlast delim1)
     \<and> \<not> sublist delim1 (rec_date r @ butlast delim1)
     \<and> \<not> sublist delim1 (rec_hash r @ butlast delim1)
     \<and> \<not> sublist delim1 (rec_body r)"



text \<open>
  A condition on the fields alone that puts the sentinels in place: no field contains
  a sentinel, and none of subject, date and hash ends with the record sentinel less
  its last character (the field sentinel that follows begins with that character).
\<close>

definition fields_clean :: "log_record \<Rightarrow> bool" where
  "fields_clean r \<longleftrightarrow>
     list_all (\<lambda>f. \<not> sublist delim1 f \<and> \<not> sublist delim2 f)
       [rec_subject r, rec_date r, rec_hash r, rec_body r]
     \<and> list_all (\<lambda>f. \<not> suffix (butlast delim2) f) [rec_subject r, rec_date r, rec_hash r]"

section \<open>The candidates of the discovery\<close>

text \<open>
  The paths that \<open>initialize\<close> maps over, and the condition under which the
  mapped function builds a workspace for a path: its manifest loads and is not
  marked private.
\<close>

definition candidate_paths :: "world \<Rightarrow> IPluginInitialize \<Rightarrow> string list" where
  "candidate_paths w init =
     (case loadGradleBuildFile w (cwd init) of
        Inr (Some mc) \<Rightarrow>
          (case manifest_workspaces (manifest mc) of
             Some patterns \<Rightarrow> glob w patterns (cwd init)
           | None \<Rightarrow> [])
      | _ \<Rightarrow> [])"

definition accepted :: "world \<Rightarrow> string \<Rightarrow> string \<Rightarrow> bool" where
  "accepted w dir path =
     (case loadGradleBuildFile w (path_join dir path) of
        Inr (Some mc) \<Rightarrow> map_of (manifest mc) ''private'' \<noteq> Some (JBool True)
      | _ \<Rightarrow> False)"

section \<open>Example inputs\<close>

text \<open>A git process that fails with exit status 1, whatever it is asked.\<close>

definition failed_git :: "string \<Rightarrow> string \<Rightarrow> git_process" where
  "failed_git out err args dir = Inr \<lparr>error = None, exitCode = Some 1, stdout = out, stderr = err\<rparr>"

text \<open>
  A repository at commit \<open>commit\<close> whose \<open>git status --porcelain\<close> prints \<open>status\<close>;
  \<open>rev-parse\<close> prints the commit id and a line feed.
\<close>

definition git_state :: "string \<Rightarrow> string \<Rightarrow> git_process" where
  "git_state commit status args dir =
     (if args = [''rev-parse'', ''--revs-only'', ''HEAD'']
      then Inr \<lparr>error = None, exitCode = Some 0, stdout = commit @ [CHR 0x0A], stderr = []\<rparr>
      else if args = [''status'', ''--porcelain'']
      then Inr \<lparr>error = None, exitCode = Some 0, stdout = status, stderr = []\<rparr>
      else Inr \<lparr>error = None, exitCode = Some 129, stdout = [], stderr = ''usage: git''\<rparr>)"

definition example_commit :: string where
  "example_commit = ''9fceb02d0ae598e95dc970b74767f19372d61af8''"




text \<open>A string between double quotes, to write JSON text.\<close>

definition quoted :: "string \<Rightarrow> string" where
  "quoted s = [CHR 0x22] @ s @ [CHR 0x22]"

definition no_file :: "string \<Rightarrow> js_error + string" where
  "no_file path = Inl (SystemError ''ENOENT'' path)"

definition example_init :: IPluginInitialize where
  "example_init = \<lparr>cwd = ''/repo'', options = \<lparr>independentVersioning = True, versionTagPrefix = ''v''\<rparr>\<rparr>"

text \<open>A directory without any file.\<close>

definition empty_world :: world where
  "empty_world = \<lparr>files = no_file, glob = (\<lambda>patterns dir. []), write_failure = (\<lambda>path. None)\<rparr>"

text \<open>
  A repository of one package. Its manifest is written on one line, without spaces
  and without a final line feed: \<open>{"name":"app","version":"1.0.0"}\<close>.
\<close>

definition compact_manifest_text :: string where
  "compact_manifest_text =
     ''{'' @ quoted ''name'' @ '':'' @ quoted ''app'' @ '','' @ quoted ''version'' @ '':'' @ quoted ''1.0.0'' @ ''}''"

definition single_package_world :: world where
  "single_package_world =
     \<lparr>files = (\<lambda>path. if path = ''/repo/build.gradle'' then Inr compact_manifest_text else no_file path),
      glob = (\<lambda>patterns dir. []),
      write_failure = (\<lambda>path. None)\<rparr>"

text \<open>A \<open>build.gradle\<close> in the syntax of Gradle.\<close>

definition native_gradle_world :: world where
  "native_gradle_world =
     \<lparr>files = (\<lambda>path. if path = ''/repo/build.gradle'' then Inr ''plugins { id 'java' }'' else no_file path),
      glob = (\<lambda>patterns dir. []),
      write_failure = (\<lambda>path. None)\<rparr>"

text \<open>
  A repository with the root manifest \<open>{"name":"root","workspaces":["packages/*"]}\<close>
  and two directories under \<open>packages\<close>: \<open>a\<close> with the manifest
  \<open>{"name":"pkg-a","version":"0.1.0"}\<close> and \<open>b\<close> with the manifest given.
\<close>

definition root_manifest_text :: string where
  "root_manifest_text =
     ''{'' @ quoted ''name'' @ '':'' @ quoted ''root'' @ '','' @ quoted ''workspaces'' @ '':[''
       @ quoted ''packages/*'' @ '']}''"

definition pkg_a_manifest_text :: string where
  "pkg_a_manifest_text =
     ''{'' @ quoted ''name'' @ '':'' @ quoted ''pkg-a'' @ '','' @ quoted ''version'' @ '':'' @ quoted ''0.1.0'' @ ''}''
     @ [CHR 0x0A]"

definition monorepo_world :: "string \<Rightarrow> world" where
  "monorepo_world pkg_b_text =
     \<lparr>files = (\<lambda>path. if path = ''/repo/build.gradle'' then Inr root_manifest_text
                       else if path = ''/repo/packages/a/build.gradle'' then Inr pkg_a_manifest_text
                       else if path = ''/repo/packages/b/build.gradle'' then Inr pkg_b_text
                       else no_file path),
      glob = (\<lambda>patterns dir. if patterns = [''packages/*''] \<and> dir = ''/repo''
                              then [''packages/a'', ''packages/b''] else []),
      write_failure = (\<lambda>path. None)\<rparr>"

text \<open>A manifest with an empty name: \<open>{"name":""}\<close>, and the same marked private:
  \<open>{"name":"","private":true}\<close>.\<close>

definition nameless_manifest_text :: string where
  "nameless_manifest_text = ''{'' @ quoted ''name'' @ '':'' @ quoted [] @ ''}''"

definition nameless_private_manifest_text :: string where
  "nameless_private_manifest_text =
     ''{'' @ quoted ''name'' @ '':'' @ quoted [] @ '','' @ quoted ''private'' @ '':true}''"

text \<open>The store that the discovery builds in the repository with the two directories,
  when the second manifest is left out: the project and the workspace of \<open>packages/a\<close>.\<close>

definition monorepo_store :: store where
  "monorepo_store =
     [\<lparr>project_field = Some 0,
       manifestContent = \<lparr>manifest = [(''name'', JString ''root''),
                                      (''workspaces'', JArray [JString ''packages/*''])],
                          eofInEnd = False\<rparr>,
       relativeCwd = ''.'',
       as_project = Some \<lparr>cwd_field = ''/repo'', config_field = example_init, childWorkspaces = [1]\<rparr>\<rparr>,
      \<lparr>project_field = Some 0,
       manifestContent = \<lparr>manifest = [(''name'', JString ''pkg-a''), (''version'', JString ''0.1.0'')],
                          eofInEnd = True\<rparr>,
       relativeCwd = ''packages/a'',
       as_project = None\<rparr>]"


text \<open>The manifest of that package as \<open>JSON.stringify\<close> writes it, for a version.\<close>

definition written_manifest_text :: "string \<Rightarrow> string" where
  "written_manifest_text version =
     ''{'' @ [CHR 0x0A] @ ''  '' @ quoted ''name'' @ '': '' @ quoted ''app'' @ '','' @ [CHR 0x0A]
     @ ''  '' @ quoted ''version'' @ '': '' @ quoted version @ [CHR 0x0A] @ ''}''"

text \<open>The text of a file after \<open>updateVersion\<close>.\<close>

definition text_after :: "store \<times> (js_error + world) \<Rightarrow> string \<Rightarrow> js_error + string" where
  "text_after result path = (case snd result of Inl e \<Rightarrow> Inl e | Inr w' \<Rightarrow> readFile w' path)"

section \<open>The parser reads forward and its bound is enough\<close>

text \<open>
  Every successful parse leaves a shorter input. So the bound on the nested calls
  that \<open>JSON_parse\<close> starts with is never reached: a larger one gives the same result.
\<close>

lemma skip_ws_Cons_shorter: "skip_ws s = c # cs \<Longrightarrow> length cs < length s"
proof -
  assume a: "skip_ws s = c # cs"
  have "length (dropWhile json_ws s) \<le> length s" by (rule length_dropWhile_le)
  with a show ?thesis by (simp add: skip_ws_def)
qed

lemma parse_chars_shorter: "parse_chars s = Some (x, r) \<Longrightarrow> length r < length s"
proof (induction s arbitrary: x r rule: parse_chars.induct)
  case 1
  then show ?case by simp
next
  case (2 c cs)
  show ?case
    using "2.prems" "2.IH"
    by (auto split: if_splits list.splits option.splits prod.splits simp: less_Suc_eq)
qed

lemma parse_fraction_le: "parse_fraction s = Some r \<Longrightarrow> length r \<le> length s"
  by (auto simp: parse_fraction_def split: list.splits if_splits intro: le_SucI length_dropWhile_le)

lemma parse_exponent_le: "parse_exponent s = Some r \<Longrightarrow> length r \<le> length s"
  by (auto simp: parse_exponent_def Let_def split: list.splits if_splits
           intro: le_SucI length_dropWhile_le order_trans[OF length_dropWhile_le])

lemma parse_number_shorter: "parse_number s = Some (lit, r) \<Longrightarrow> length r < length s"
proof -
  assume a: "parse_number s = Some (lit, r)"
  let ?s1 = "if prefix ''-'' s then tl s else s"
  from a obtain s3 where
    ds: "takeWhile digit_char ?s1 \<noteq> []" and
    f: "parse_fraction (dropWhile digit_char ?s1) = Some s3" and
    e: "parse_exponent s3 = Some r"
    by (auto simp: parse_number_def Let_def split: if_splits option.splits)
  have "length (takeWhile digit_char ?s1) + length (dropWhile digit_char ?s1) = length ?s1"
    by (metis length_append takeWhile_dropWhile_id)
  with ds have "length (dropWhile digit_char ?s1) < length ?s1"
    by (cases "takeWhile digit_char ?s1") auto
  moreover have "length ?s1 \<le> length s" by simp
  ultimately show ?thesis
    using parse_fraction_le[OF f] parse_exponent_le[OF e] by linarith
qed


lemma skip_ws_le: "length (skip_ws s) \<le> length s"
  by (simp add: skip_ws_def length_dropWhile_le)

lemma parse_shorter_aux:
  "(\<forall>s v r. parse_value n s = Some (v, r) \<longrightarrow> length r < length s)
   \<and> (\<forall>acc s v r. parse_elements n acc s = Some (v, r) \<longrightarrow> length r < length s)
   \<and> (\<forall>ps s v r. parse_members n ps s = Some (v, r) \<longrightarrow> length r < length s)"
proof (induction n)
  case 0
  show ?case by simp
next
  case (Suc n)
  then have IHv: "\<And>s v r. parse_value n s = Some (v, r) \<Longrightarrow> length r < length s"
    and IHe: "\<And>acc s v r. parse_elements n acc s = Some (v, r) \<Longrightarrow> length r < length s"
    and IHm: "\<And>ps s v r. parse_members n ps s = Some (v, r) \<Longrightarrow> length r < length s"
    by blast+
  have v: "length r < length s" if a: "parse_value (Suc n) s = Some (v, r)" for s v r
  proof (cases "skip_ws s")
    case Nil
    with a show ?thesis by simp
  next
    case (Cons c cs)
    have le: "Suc (length cs) \<le> length s"
      using skip_ws_le[of s] Cons by simp
    consider (obj) "c = CHR ''{''" | (arr) "c \<noteq> CHR ''{''" "c = CHR ''[''"
      | (str) "c \<noteq> CHR ''{''" "c \<noteq> CHR ''[''" "c = CHR 0x22"
      | (other) "c \<noteq> CHR ''{''" "c \<noteq> CHR ''[''" "c \<noteq> CHR 0x22"
      by blast
    then show ?thesis
    proof cases
      case obj
      show ?thesis
      proof (cases "skip_ws cs")
        case Nil
        with a Cons obj show ?thesis by simp
      next
        case (Cons c' r')
        show ?thesis
        proof (cases "c' = CHR ''}''")
          case True
          with a \<open>skip_ws s = c # cs\<close> obj Cons have "r = r'" by simp
          with skip_ws_Cons_shorter[OF Cons] le show ?thesis by simp
        next
          case False
          with a \<open>skip_ws s = c # cs\<close> obj Cons have "parse_members n [] cs = Some (v, r)" by simp
          from IHm[OF this] le show ?thesis by simp
        qed
      qed
    next
      case arr
      show ?thesis
      proof (cases "skip_ws cs")
        case Nil
        with a Cons arr show ?thesis by simp
      next
        case (Cons c' r')
        show ?thesis
        proof (cases "c' = CHR '']''")
          case True
          with a \<open>skip_ws s = c # cs\<close> arr Cons have "r = r'" by simp
          with skip_ws_Cons_shorter[OF Cons] le show ?thesis by simp
        next
          case False
          with a \<open>skip_ws s = c # cs\<close> arr Cons have "parse_elements n [] cs = Some (v, r)" by simp
          from IHe[OF this] le show ?thesis by simp
        qed
      qed
    next
      case str
      with a Cons obtain x where "parse_chars cs = Some (x, r)"
        by (auto split: option.splits)
      from parse_chars_shorter[OF this] le show ?thesis by simp
    next
      case other
      with a Cons have
        "(prefix ''true'' (c # cs) \<and> r = drop 4 (c # cs))
         \<or> (prefix ''false'' (c # cs) \<and> r = drop 5 (c # cs))
         \<or> (prefix ''null'' (c # cs) \<and> r = drop 4 (c # cs))
         \<or> (\<exists>lit. parse_number (c # cs) = Some (lit, r))"
        by (auto split: if_splits option.splits)
      then show ?thesis
        using le by (auto dest: parse_number_shorter)
    qed
  qed
  have e: "length r < length s" if a: "parse_elements (Suc n) acc s = Some (v, r)" for acc s v r
  proof -
    from a obtain x r1 where pv: "parse_value n s = Some (x, r1)"
      by (auto split: option.splits)
    from IHv[OF pv] have l1: "length r1 < length s" .
    from a pv obtain c r2 where sk: "skip_ws r1 = c # r2"
      by (cases "skip_ws r1") auto
    have l2: "length r2 < length r1" using skip_ws_Cons_shorter[OF sk] .
    from a pv sk have "parse_elements n (acc @ [x]) r2 = Some (v, r) \<or> r = r2"
      by (auto split: if_splits)
    then show ?thesis using IHe l1 l2 by (auto dest!: IHe)
  qed
  have m: "length r < length s" if a: "parse_members (Suc n) ps s = Some (v, r)" for ps s v r
  proof -
    from a obtain q r0 where s0: "skip_ws s = q # r0" and q: "q = CHR 0x22"
      by (cases "skip_ws s") (auto split: if_splits)
    have l0: "length r0 < length s" using skip_ws_Cons_shorter[OF s0] .
    from a s0 q obtain k r1 where pc: "parse_chars r0 = Some (k, r1)"
      by (auto split: option.splits)
    have l1: "length r1 < length r0" using parse_chars_shorter[OF pc] .
    from a s0 q pc obtain c1 r2 where s1: "skip_ws r1 = c1 # r2" and c1: "c1 = CHR '':''"
      by (cases "skip_ws r1") (auto split: if_splits)
    have l2: "length r2 < length r1" using skip_ws_Cons_shorter[OF s1] .
    from a s0 q pc s1 c1 obtain x r3 where pv: "parse_value n r2 = Some (x, r3)"
      by (auto split: option.splits)
    have l3: "length r3 < length r2" using IHv[OF pv] .
    from a s0 q pc s1 c1 pv obtain c3 r4 where s3: "skip_ws r3 = c3 # r4"
      by (cases "skip_ws r3") auto
    have l4: "length r4 < length r3" using skip_ws_Cons_shorter[OF s3] .
    from a s0 q pc s1 c1 pv s3 have "parse_members n (obj_put ps k x) r4 = Some (v, r) \<or> r = r4"
      by (auto split: if_splits)
    then show ?thesis using l0 l1 l2 l3 l4 by (auto dest!: IHm)
  qed
  show ?case using v e m by blast
qed


lemma parse_value_shorter: "parse_value n s = Some (v, r) \<Longrightarrow> length r < length s"
  using parse_shorter_aux[of n] by blast

lemma fuel_step:
  "(\<forall>s. 2 * length s + 2 \<le> n \<longrightarrow> parse_value (Suc n) s = parse_value n s)
   \<and> (\<forall>acc s. 2 * length s + 3 \<le> n \<longrightarrow> parse_elements (Suc n) acc s = parse_elements n acc s)
   \<and> (\<forall>ps s. 2 * length s + 3 \<le> n \<longrightarrow> parse_members (Suc n) ps s = parse_members n ps s)"
proof (induction n)
  case 0
  show ?case by simp
next
  case (Suc n)
  then have IHv: "\<And>s. 2 * length s + 2 \<le> n \<Longrightarrow> parse_value (Suc n) s = parse_value n s"
    and IHe: "\<And>acc s. 2 * length s + 3 \<le> n \<Longrightarrow> parse_elements (Suc n) acc s = parse_elements n acc s"
    and IHm: "\<And>ps s. 2 * length s + 3 \<le> n \<Longrightarrow> parse_members (Suc n) ps s = parse_members n ps s"
    by blast+
  have v: "parse_value (Suc (Suc n)) s = parse_value (Suc n) s" if b: "2 * length s + 2 \<le> Suc n" for s
  proof (cases "skip_ws s")
    case Nil
    then show ?thesis by simp
  next
    case (Cons c cs)
    have le: "Suc (length cs) \<le> length s"
      using skip_ws_le[of s] Cons by simp
    have pm: "parse_members (Suc n) [] cs = parse_members n [] cs"
      using le b by (intro IHm) linarith
    have pe: "parse_elements (Suc n) [] cs = parse_elements n [] cs"
      using le b by (intro IHe) linarith
    show ?thesis
      by (simp only: parse_value.simps(2) Cons list.case pm pe)
  qed
  have e: "parse_elements (Suc (Suc n)) acc s = parse_elements (Suc n) acc s"
    if b: "2 * length s + 3 \<le> Suc n" for acc s
  proof -
    have pv: "parse_value (Suc n) s = parse_value n s"
      using b by (intro IHv) linarith
    show ?thesis
    proof (cases "parse_value n s")
      case None
      with pv show ?thesis by simp
    next
      case (Some res)
      obtain x r1 where res: "res = (x, r1)" by (cases res)
      have l1: "length r1 < length s"
        using parse_value_shorter Some res by blast
      show ?thesis
      proof (cases "skip_ws r1")
        case Nil
        with pv Some res show ?thesis by simp
      next
        case (Cons c r2)
        have l2: "length r2 < length r1" using skip_ws_Cons_shorter[OF Cons] .
        have "parse_elements (Suc n) (acc @ [x]) r2 = parse_elements n (acc @ [x]) r2"
          using l1 l2 b by (intro IHe) linarith
        then show ?thesis
          by (simp only: parse_elements.simps(2) pv Some res option.case prod.case Cons list.case)
      qed
    qed
  qed
  have m: "parse_members (Suc (Suc n)) ps s = parse_members (Suc n) ps s"
    if b: "2 * length s + 3 \<le> Suc n" for ps s
  proof (cases "skip_ws s")
    case Nil
    then show ?thesis by simp
  next
    case s0: (Cons q r0)
    have l0: "length r0 < length s" using skip_ws_Cons_shorter[OF s0] .
    show ?thesis
    proof (cases "parse_chars r0")
      case None
      with s0 show ?thesis by simp
    next
      case (Some kr)
      obtain k r1 where kr: "kr = (k, r1)" by (cases kr)
      have l1: "length r1 < length r0" using parse_chars_shorter Some kr by blast
      show ?thesis
      proof (cases "skip_ws r1")
        case Nil
        with s0 Some kr show ?thesis by simp
      next
        case s1: (Cons c1 r2)
        have l2: "length r2 < length r1" using skip_ws_Cons_shorter[OF s1] .
        have pv: "parse_value (Suc n) r2 = parse_value n r2"
          using l0 l1 l2 b by (intro IHv) linarith
        show ?thesis
        proof (cases "parse_value n r2")
          case None
          with s0 Some kr s1 pv show ?thesis by simp
        next
          case pvs: (Some res)
          obtain x r3 where res: "res = (x, r3)" by (cases res)
          have l3: "length r3 < length r2" using parse_value_shorter pvs res by blast
          show ?thesis
          proof (cases "skip_ws r3")
            case Nil
            with s0 Some kr s1 pv pvs res show ?thesis by simp
          next
            case s3: (Cons c3 r4)
            have l4: "length r4 < length r3" using skip_ws_Cons_shorter[OF s3] .
            have "parse_members (Suc n) (obj_put ps k x) r4 = parse_members n (obj_put ps k x) r4"
              using l0 l1 l2 l3 l4 b by (intro IHm) linarith
            then show ?thesis
              by (simp only: parse_members.simps(2) s0 Some kr s1 pv pvs res s3
                    option.case prod.case list.case)
          qed
        qed
      qed
    qed
  qed
  show ?case using v e m by blast
qed

lemma fuel_enough:
  assumes "2 * length s + 2 \<le> n"
  shows "parse_value n s = parse_value (2 * length s + 2) s"
  using assms
proof (induction n)
  case 0
  then show ?case by simp
next
  case (Suc n)
  show ?case
  proof (cases "2 * length s + 2 \<le> n")
    case True
    then have "parse_value (Suc n) s = parse_value n s"
      using fuel_step[of n] by blast
    with Suc.IH[OF True] show ?thesis by simp
  next
    case False
    with Suc.prems have "Suc n = 2 * length s + 2" by simp
    then show ?thesis by simp
  qed
qed

lemma JSON_parse_fuel:
  assumes "2 * length str + 2 \<le> n"
  shows "JSON_parse str =
           (case parse_value n str of
              None \<Rightarrow> None
            | Some (v, rest) \<Rightarrow> if skip_ws rest = [] then Some v else None)"
  using fuel_enough[OF assms] by (simp add: JSON_parse_def)

section \<open>Splitting and trimming\<close>

lemma split_on_first:
  assumes "sep \<noteq> []" and "\<not> sublist sep (a @ butlast sep)"
  shows "split_on sep (a @ sep @ rest) = a # split_on sep rest"
  using assms
proof (induction a)
  case Nil
  then obtain c cs where sep: "sep = c # cs" by (cases sep) auto
  then show ?case by simp
next
  case (Cons x a)
  have no: "\<not> prefix sep (x # a @ sep @ rest)"
  proof
    assume p: "prefix sep (x # a @ sep @ rest)"
    have "x # a @ sep @ rest = ((x # a) @ butlast sep) @ (last sep # rest)"
      using Cons.prems(1) by simp
    moreover have "length sep \<le> length ((x # a) @ butlast sep)" by simp
    ultimately have "prefix sep ((x # a) @ butlast sep)"
      using p by (metis prefix_length_prefix prefix_order.dual_order.refl prefixI prefix_append)
    then show False using Cons.prems(2) by (auto dest: prefix_imp_sublist)
  qed
  have "\<not> sublist sep (a @ butlast sep)"
    using Cons.prems(2) by (auto simp: sublist_Cons_right)
  with Cons.IH Cons.prems(1) have "split_on sep (a @ sep @ rest) = a # split_on sep rest" by simp
  with no show ?case by simp
qed

lemma split_on_none:
  assumes "\<not> sublist sep a"
  shows "split_on sep a = [a]"
  using assms
proof (induction a)
  case Nil
  then show ?case by simp
next
  case (Cons x a)
  then have "\<not> prefix sep (x # a)" and "\<not> sublist sep a"
    by (auto simp: sublist_Cons_right)
  with Cons.IH show ?case by simp
qed




















lemma sublist_overlap:
  assumes "sublist d (x @ y)"
  shows "sublist d x \<or> sublist d y
       \<or> (\<exists>k. 0 < k \<and> k < length d \<and> suffix (take k d) x \<and> prefix (drop k d) y)"
proof -
  from assms consider "sublist d x" | "sublist d y"
    | xs1 xs2 where "d = xs1 @ xs2" "suffix xs1 x" "prefix xs2 y"
    unfolding sublist_append by blast
  then show ?thesis
  proof cases
    case 3
    show ?thesis
    proof (cases "xs1 = [] \<or> xs2 = []")
      case True
      then show ?thesis using 3 by (auto intro: prefix_imp_sublist suffix_imp_sublist)
    next
      case False
      then have "0 < length xs1" "length xs1 < length d" "take (length xs1) d = xs1" "drop (length xs1) d = xs2"
        using 3(1) by auto
      then show ?thesis using 3(2,3) by metis
    qed
  qed auto
qed

lemma sentinel_overlaps:
  "list_all (\<lambda>k. \<not> prefix (drop k delim1) (butlast delim1)) [1..<36]"
  "list_all (\<lambda>k. \<not> prefix (drop k delim2) (butlast delim2)) [1..<36]"
  "list_all (\<lambda>k. \<not> prefix (drop k delim2) delim1) [1..<35]"
  "list_all (\<lambda>k. \<not> suffix (take k delim2) delim1) [1..<36]"
  "\<not> sublist delim2 delim1"
  by code_simp+

lemma length_delims: "length delim1 = 36" "length delim2 = 36"
  by (simp_all add: delim1_def delim2_def)

lemma no_occurrence_into_own_prefix:
  assumes "length d = 36" and "list_all (\<lambda>k. \<not> prefix (drop k d) (butlast d)) [1..<36]"
    and "\<not> sublist d f"
  shows "\<not> sublist d (f @ butlast d)"
proof
  assume "sublist d (f @ butlast d)"
  from sublist_overlap[OF this] assms(3)
  consider "sublist d (butlast d)" | k where "0 < k" "k < length d" "prefix (drop k d) (butlast d)"
    by blast
  then show False
  proof cases
    case 1
    then have "length d \<le> length (butlast d)" by (rule sublist_length_le)
    then show ?thesis using assms(1) by simp
  next
    case 2
    then have "k \<in> set [1..<36]" using assms(1) by simp
    with assms(2) 2(3) show ?thesis by (simp add: list_all_iff)
  qed
qed

lemma record_sentinel_across_field_sentinel:
  assumes "sublist delim2 (f @ delim1 @ rest)"
  shows "sublist delim2 f \<or> suffix (butlast delim2) f \<or> sublist delim2 rest"
proof -
  from sublist_overlap[OF assms]
  consider "sublist delim2 f" | "sublist delim2 (delim1 @ rest)"
    | k where "0 < k" "k < length delim2" "suffix (take k delim2) f" "prefix (drop k delim2) (delim1 @ rest)"
    by blast
  then show ?thesis
  proof cases
    case 1
    then show ?thesis by simp
  next
    case 2
    from sublist_overlap[OF 2] sentinel_overlaps(5)
    consider "sublist delim2 rest" | j where "0 < j" "j < length delim2" "suffix (take j delim2) delim1"
      by blast
    then show ?thesis
    proof cases
      case 1
      then show ?thesis by simp
    next
      case 2
      then have "j \<in> set [1..<36]" by (simp add: length_delims)
      with sentinel_overlaps(4) 2(3) show ?thesis by (simp add: list_all_iff)
    qed
  next
    case 3
    have "length (drop k delim2) < length delim1"
      using 3(1,2) by (simp add: length_delims)
    with 3(4) have p: "prefix (drop k delim2) delim1"
      by (auto simp: prefix_append dest: arg_cong[where f=length])
    show ?thesis
    proof (cases "k < 35")
      case True
      then have "k \<in> set [1..<35]" using 3(1) by simp
      with sentinel_overlaps(3) p show ?thesis by (simp add: list_all_iff)
    next
      case False
      then have "k = 35" using 3(2) by (simp add: length_delims)
      then have "take k delim2 = butlast delim2"
        by (simp add: butlast_conv_take length_delims)
      with 3(3) show ?thesis by simp
    qed
  qed
qed

lemma sentinels_in_place_if_fields_clean:
  assumes "fields_clean r"
  shows "sentinels_in_place r"
proof -
  let ?s = "rec_subject r" and ?d = "rec_date r" and ?h = "rec_hash r" and ?b = "rec_body r"
  from assms have
    c1: "\<not> sublist delim1 ?s" "\<not> sublist delim1 ?d" "\<not> sublist delim1 ?h" "\<not> sublist delim1 ?b" and
    c2: "\<not> sublist delim2 ?s" "\<not> sublist delim2 ?d" "\<not> sublist delim2 ?h" "\<not> sublist delim2 ?b" and
    c3: "\<not> suffix (butlast delim2) ?s" "\<not> suffix (butlast delim2) ?d" "\<not> suffix (butlast delim2) ?h"
    by (simp_all add: fields_clean_def)
  have b: "\<not> sublist delim2 (?b @ butlast delim2)"
    using no_occurrence_into_own_prefix[OF length_delims(2) sentinel_overlaps(2) c2(4)] .
  have h: "\<not> sublist delim2 (?h @ delim1 @ (?b @ butlast delim2))"
    using record_sentinel_across_field_sentinel[of ?h "?b @ butlast delim2"] c2(3) c3(3) b by blast
  have d: "\<not> sublist delim2 (?d @ delim1 @ (?h @ delim1 @ (?b @ butlast delim2)))"
    using record_sentinel_across_field_sentinel[of ?d "?h @ delim1 @ (?b @ butlast delim2)"] c2(2) c3(2) h by blast
  have s: "\<not> sublist delim2 (?s @ delim1 @ (?d @ delim1 @ (?h @ delim1 @ (?b @ butlast delim2))))"
    using record_sentinel_across_field_sentinel[of ?s "?d @ delim1 @ (?h @ delim1 @ (?b @ butlast delim2))"] c2(1) c3(1) d by blast
  have e: "\<not> sublist delim2 (entry_text r @ butlast delim2)"
    using s by (simp add: entry_text_def)
  show ?thesis
    using e c1(4)
      no_occurrence_into_own_prefix[OF length_delims(1) sentinel_overlaps(1) c1(1)]
      no_occurrence_into_own_prefix[OF length_delims(1) sentinel_overlaps(1) c1(2)]
      no_occurrence_into_own_prefix[OF length_delims(1) sentinel_overlaps(1) c1(3)]
    by (simp add: sentinels_in_place_def)
qed

lemma gitStatusHash_same_outputs:
  assumes "spawn1 [''rev-parse'', ''--revs-only'', ''HEAD''] (Some dir)
             = spawn2 [''rev-parse'', ''--revs-only'', ''HEAD''] (Some dir)"
    and "spawn1 [''status'', ''--porcelain''] (Some dir) = spawn2 [''status'', ''--porcelain''] (Some dir)"
  shows "gitStatusHash d spawn1 dir = gitStatusHash d spawn2 dir"
  using assms by (simp add: gitStatusHash_def gitExec_def)

section \<open>The store after the discovery, and the manifest after an update\<close>

lemma isGradleBuildFile_object:
  "isGradleBuildFile content \<Longrightarrow> \<exists>ps. content = JObject ps"
  by (cases content) (simp_all add: isGradleBuildFile_def)

lemma isGradleBuildFile_name:
  "isGradleBuildFile (JObject ps) \<Longrightarrow> \<exists>n. manifest_name ps = Some n"
  by (auto simp: isGradleBuildFile_def isString_def manifest_name_def split: option.splits json.splits)

lemma loadGradleBuildFile_Some:
  assumes "loadGradleBuildFile w folder = Inr (Some mc)"
  shows "\<exists>text. readFile w (path_join folder GRADLE_MANIFEST_NAME) = Inr text
           \<and> JSON_parse text = Some (JObject (manifest mc))
           \<and> isGradleBuildFile (JObject (manifest mc))
           \<and> eofInEnd mc = endsWith text [CHR 0x0A]"
proof -
  from assms obtain str content where
    rd: "readFile w (path_join folder GRADLE_MANIFEST_NAME) = Inr str" and
    ps: "JSON_parse str = Some content" and
    ok: "isGradleBuildFile content" and
    mc: "mc = \<lparr>manifest = (case content of JObject ps \<Rightarrow> ps | _ \<Rightarrow> []),
                eofInEnd = endsWith str [CHR 0x0A]\<rparr>"
    by (auto simp: loadGradleBuildFile_def split: sum.splits option.splits if_splits)
  from ok obtain props where "content = JObject props"
    using isGradleBuildFile_object by blast
  with rd ps ok mc show ?thesis by auto
qed

lemma load_workspace_cases:
  assumes "load_workspace w h p dir path = Inr (h', r)"
  shows "(r = None \<and> h' = h \<and> \<not> accepted w dir path)
       \<or> (\<exists>mc. r = Some (length h)
             \<and> h' = h @ [\<lparr>project_field = Some p, manifestContent = mc, relativeCwd = path, as_project = None\<rparr>]
             \<and> accepted w dir path
             \<and> manifest_name (manifest mc) \<noteq> None \<and> manifest_name (manifest mc) \<noteq> Some []
             \<and> isGradleBuildFile (JObject (manifest mc)))"
  using assms
  by (auto simp: load_workspace_def accepted_def new_GradleWorkspace_def
           split: sum.splits option.splits if_splits dest: loadGradleBuildFile_Some)

lemma load_workspaces_result:
  assumes "load_workspaces w h p dir paths = Inr (h', rs)"
  shows "\<exists>new. h' = h @ new \<and> rs = [length h..<length h']
           \<and> map relativeCwd new = filter (accepted w dir) paths
           \<and> (\<forall>ob\<in>set new. project_field ob = Some p \<and> as_project ob = None
                 \<and> manifest_name (manifest (manifestContent ob)) \<noteq> None
                 \<and> manifest_name (manifest (manifestContent ob)) \<noteq> Some []
            \<and> isGradleBuildFile (JObject (manifest (manifestContent ob))))"
  using assms
proof (induction paths arbitrary: h h' rs)
  case Nil
  then show ?case by simp
next
  case (Cons path paths)
  from Cons.prems obtain h1 r h2 rs2 where
    one: "load_workspace w h p dir path = Inr (h1, r)" and
    rest: "load_workspaces w h1 p dir paths = Inr (h2, rs2)" and
    res: "h' = h2" "rs = (case r of None \<Rightarrow> rs2 | Some a \<Rightarrow> a # rs2)"
    by (auto split: sum.splits prod.splits)
  from Cons.IH[OF rest] obtain new2 where
    n2: "h2 = h1 @ new2" "rs2 = [length h1..<length h2]"
        "map relativeCwd new2 = filter (accepted w dir) paths"
        "\<forall>ob\<in>set new2. project_field ob = Some p \<and> as_project ob = None
            \<and> manifest_name (manifest (manifestContent ob)) \<noteq> None
            \<and> manifest_name (manifest (manifestContent ob)) \<noteq> Some []
            \<and> isGradleBuildFile (JObject (manifest (manifestContent ob)))"
    by blast
  from load_workspace_cases[OF one] show ?case
  proof (elim disjE conjE exE)
    assume "r = None" "h1 = h" "\<not> accepted w dir path"
    then show ?thesis using n2 res by auto
  next
    fix mc
    assume a: "r = Some (length h)"
      "h1 = h @ [\<lparr>project_field = Some p, manifestContent = mc, relativeCwd = path, as_project = None\<rparr>]"
      "accepted w dir path"
      "manifest_name (manifest mc) \<noteq> None" "manifest_name (manifest mc) \<noteq> Some []"
      "isGradleBuildFile (JObject (manifest mc))"
    let ?ob = "\<lparr>project_field = Some p, manifestContent = mc, relativeCwd = path, as_project = None\<rparr>"
    have "h' = h @ (?ob # new2)" using a n2 res by simp
    moreover have "rs = [length h..<length h']"
    proof -
      have l1: "length h1 = Suc (length h)" using a by simp
      have lt: "length h < length h'" using a n2 res by simp
      have "rs = length h # [Suc (length h)..<length h']"
        by (simp only: res a(1) n2(2) l1 option.case)
      then show ?thesis by (simp only: upt_conv_Cons[OF lt])
    qed
    moreover have "map relativeCwd (?ob # new2) = filter (accepted w dir) (path # paths)"
      using a n2 by simp
    moreover have "\<forall>ob\<in>set (?ob # new2). project_field ob = Some p \<and> as_project ob = None
            \<and> manifest_name (manifest (manifestContent ob)) \<noteq> None
            \<and> manifest_name (manifest (manifestContent ob)) \<noteq> Some []
            \<and> isGradleBuildFile (JObject (manifest (manifestContent ob)))"
      using a n2 by simp
    ultimately show ?thesis by blast
  qed
qed

lemma initialize_result:
  assumes "initialize w h init = Inr (h', Some p)"
  shows "\<exists>mc new. loadGradleBuildFile w (cwd init) = Inr (Some mc)
           \<and> p = length h
           \<and> h' = h @ \<lparr>project_field = Some p, manifestContent = mc, relativeCwd = ''.'',
                        as_project = Some \<lparr>cwd_field = cwd init, config_field = init,
                                           childWorkspaces = [Suc p..<Suc p + length new]\<rparr>\<rparr> # new
           \<and> map relativeCwd new = filter (accepted w (cwd init)) (candidate_paths w init)
           \<and> manifest_name (manifest mc) \<noteq> None \<and> manifest_name (manifest mc) \<noteq> Some []
           \<and> isGradleBuildFile (JObject (manifest mc))
           \<and> (\<forall>ob\<in>set new. project_field ob = Some p \<and> as_project ob = None
                 \<and> manifest_name (manifest (manifestContent ob)) \<noteq> None
                 \<and> manifest_name (manifest (manifestContent ob)) \<noteq> Some []
            \<and> isGradleBuildFile (JObject (manifest (manifestContent ob))))"
proof -
  from assms obtain mc where ld: "loadGradleBuildFile w (cwd init) = Inr (Some mc)"
    by (auto simp: initialize_def split: sum.splits option.splits)
  let ?pob = "\<lambda>cs. \<lparr>project_field = Some (length h), manifestContent = mc, relativeCwd = ''.'',
                 as_project = Some \<lparr>cwd_field = cwd init, config_field = init, childWorkspaces = cs\<rparr>\<rparr>"
  from assms ld have nm: "manifest_name (manifest mc) \<noteq> None" "manifest_name (manifest mc) \<noteq> Some []"
    by (auto simp: initialize_def new_GradleProject_def new_GradleWorkspace_def split: sum.splits option.splits if_splits)
  have vr: "isGradleBuildFile (JObject (manifest mc))"
    using loadGradleBuildFile_Some[OF ld] by blast
  from nm have np: "new_GradleProject h (cwd init) mc init = Inr (h @ [?pob []], length h)"
    by (simp add: new_GradleProject_def new_GradleWorkspace_def)
  show ?thesis
  proof (cases "manifest_workspaces (manifest mc)")
    case None
    then have "h' = h @ [?pob []]" "p = length h"
      using assms ld np by (auto simp: initialize_def)
    moreover have "candidate_paths w init = []"
      using ld None by (simp add: candidate_paths_def)
    ultimately show ?thesis using ld nm vr
      by (intro exI[of _ mc] exI[of _ "[]"]) simp
  next
    case (Some patterns)
    then obtain h2 children where
      lw: "load_workspaces w (h @ [?pob []]) (length h) (cwd init) (glob w patterns (cwd init)) = Inr (h2, children)"
      and res: "h' = h2[length h := (h2 ! length h)\<lparr>as_project :=
                   map_option (\<lambda>pf. pf\<lparr>childWorkspaces := children\<rparr>) (as_project (h2 ! length h))\<rparr>]"
               "p = length h"
      using assms ld np by (auto simp: initialize_def split: sum.splits)
    from load_workspaces_result[OF lw] obtain new where
      n: "h2 = (h @ [?pob []]) @ new" "children = [length (h @ [?pob []])..<length h2]"
         "map relativeCwd new = filter (accepted w (cwd init)) (glob w patterns (cwd init))"
         "\<forall>ob\<in>set new. project_field ob = Some (length h) \<and> as_project ob = None
            \<and> manifest_name (manifest (manifestContent ob)) \<noteq> None
            \<and> manifest_name (manifest (manifestContent ob)) \<noteq> Some []
            \<and> isGradleBuildFile (JObject (manifest (manifestContent ob)))"
      by blast
    have cp: "candidate_paths w init = glob w patterns (cwd init)"
      using ld Some by (simp add: candidate_paths_def)
    have "h' = h @ ?pob [Suc (length h)..<Suc (length h) + length new] # new"
      using res n by (simp add: nth_append list_update_append)
    then show ?thesis using ld nm vr n cp res
      by (intro exI[of _ mc] exI[of _ new]) simp
  qed
qed


lemma store_lookup:
  assumes "h' = h @ pob # new"
  shows "object_at h' (length h) = Some pob"
    and "i < length new \<Longrightarrow> object_at h' (Suc (length h) + i) = Some (new ! i)"
  using assms by (simp_all add: object_at_def nth_append)

lemma initialize_fails_without_manifest:
  assumes "readFile w (path_join (cwd init) GRADLE_MANIFEST_NAME) = Inl e"
  shows "initialize w h init = Inl e"
  using assms by (simp add: initialize_def loadGradleBuildFile_def)

lemma load_workspaces_fails:
  assumes "path \<in> set paths" and "\<And>h. \<exists>e. load_workspace w h p dir path = Inl e"
  shows "\<exists>e. load_workspaces w h p dir paths = Inl e"
  using assms(1)
proof (induction paths arbitrary: h)
  case Nil
  then show ?case by simp
next
  case (Cons q paths)
  show ?case
  proof (cases "load_workspace w h p dir q")
    case (Inl e)
    then show ?thesis by simp
  next
    case (Inr res)
    obtain h1 r where res: "res = (h1, r)" by (cases res)
    have "q \<noteq> path" using Inr assms(2)[of h] by auto
    with Cons.prems have "path \<in> set paths" by simp
    from Cons.IH[OF this, of h1] obtain e where "load_workspaces w h1 p dir paths = Inl e" by blast
    with Inr res show ?thesis by simp
  qed
qed






lemma object_at_update:
  "object_at (h[i := x]) a = (if a = i \<and> i < length h then Some x else object_at h a)"
  by (simp add: object_at_def)


lemma initialized_workspace_ready:
  assumes "initialize w h init = Inr (h', Some p)"
    and "workspaces h' p = Some ws"
    and "a \<in> set ws"
  shows "\<exists>ob dir. object_at h' a = Some ob \<and> get_cwd h' a = Some dir
           \<and> isGradleBuildFile (JObject (manifest (manifestContent ob)))"
proof -
  from initialize_result[OF assms(1)] obtain mc new where
    p: "p = length h" and
    h': "h' = h @ \<lparr>project_field = Some p, manifestContent = mc, relativeCwd = ''.'',
                    as_project = Some \<lparr>cwd_field = cwd init, config_field = init,
                                       childWorkspaces = [Suc p..<Suc p + length new]\<rparr>\<rparr> # new" and
    root: "isGradleBuildFile (JObject (manifest mc))" and
    kids: "\<forall>ob\<in>set new. project_field ob = Some p \<and> as_project ob = None
                 \<and> isGradleBuildFile (JObject (manifest (manifestContent ob)))"
    by blast
  have at_p: "object_at h' p = Some \<lparr>project_field = Some p, manifestContent = mc, relativeCwd = ''.'',
                    as_project = Some \<lparr>cwd_field = cwd init, config_field = init,
                                       childWorkspaces = [Suc p..<Suc p + length new]\<rparr>\<rparr>"
    using store_lookup(1)[OF h'] p by simp
  have at_c: "\<And>i. i < length new \<Longrightarrow> object_at h' (Suc (p + i)) = Some (new ! i)"
    using store_lookup(2)[OF h'] p by simp
  have ws: "ws = p # [Suc p..<Suc p + length new]"
    using assms(2) at_p by (simp add: workspaces_def)
  show ?thesis
  proof (cases "a = p")
    case True
    then show ?thesis using at_p root by (simp add: get_cwd_def)
  next
    case False
    with assms(3) ws obtain i where i: "a = Suc p + i" "i < length new"
      by (auto simp: le_iff_add)
    then have "new ! i \<in> set new" by simp
    with kids have k: "project_field (new ! i) = Some p" "as_project (new ! i) = None"
      "isGradleBuildFile (JObject (manifest (manifestContent (new ! i))))" by auto
    show ?thesis
      using at_c[OF i(2)] i(1) k at_p by (simp add: get_cwd_def)
  qed
qed

section \<open>Claims about core/git.ts\<close>

lemma gitExec_success:
  assumes "spawn args dir = Inr \<lparr>error = None, exitCode = Some 0, stdout = out, stderr = err\<rparr>"
  shows "gitExec spawn args dir = ([], Inr (trim (replace_trailing_escapes out)))"
  using assms by (simp add: gitExec_def)




text \<open>
  C6, amended. When the git process ends with an exit status other than 0,
  \<open>gitExec\<close> returns no result. If the spawn result has no \<open>error\<close>, the captured
  stderr and stdout are written to the console and the error thrown is
  \<open>Error('Invalid status code from git output: <status>')\<close>, which holds the status
  alone; if it has one, that error is thrown and nothing is written.
\<close>

theorem gitExec_nonzero_exit_throws:
  assumes "spawn args dir = Inr output" and "exitCode output \<noteq> Some 0"
  shows "gitExec spawn args dir =
           (case error output of
              Some e \<Rightarrow> ([], Inl e)
            | None \<Rightarrow> ([stderr output, stdout output],
                       Inl (Error (''Invalid status code from git output: ''
                                   @ show_exitCode (exitCode output)))))"
  using assms by (simp add: gitExec_def split: option.splits)

theorem gitExec_nonzero_exit_throws_witness:
  "failed_git ''M a.ts'' ''fatal: one'' [''status''] None
     = Inr \<lparr>error = None, exitCode = Some 1, stdout = ''M a.ts'', stderr = ''fatal: one''\<rparr>
   \<and> exitCode \<lparr>error = None, exitCode = Some 1, stdout = ''M a.ts'', stderr = ''fatal: one''\<rparr> \<noteq> Some 0
   \<and> gitExec (failed_git ''M a.ts'' ''fatal: one'') [''status''] None
       = ([''fatal: one'', ''M a.ts''], Inl (Error ''Invalid status code from git output: 1''))"
proof -
  have sp: "failed_git ''M a.ts'' ''fatal: one'' [''status''] None
     = Inr \<lparr>error = None, exitCode = Some 1, stdout = ''M a.ts'', stderr = ''fatal: one''\<rparr>"
    by (simp add: failed_git_def)
  have ex: "exitCode \<lparr>error = None, exitCode = Some 1, stdout = ''M a.ts'', stderr = ''fatal: one''\<rparr> \<noteq> Some 0"
    by simp
  have sh: "show_exitCode (Some 1) = ''1''"
    by code_simp
  show ?thesis
    using sp ex sh
      gitExec_nonzero_exit_throws[where spawn="failed_git ''M a.ts'' ''fatal: one''"
        and args="[''status'']" and dir=None, OF sp ex]
    by simp
qed

text \<open>
  C6 as stated fails: the error thrown does not carry the captured output. Two
  processes that fail with the same status and different stdout and stderr make
  \<open>gitExec\<close> throw the same error.
\<close>

theorem gitExec_error_without_output_counterexample:
  "snd (gitExec (failed_git ''M a.ts'' ''fatal: one'') [''status''] None)
     = Inl (Error ''Invalid status code from git output: 1'')
   \<and> snd (gitExec (failed_git ''M b.ts'' ''fatal: two'') [''status''] None)
     = Inl (Error ''Invalid status code from git output: 1'')"
  by code_simp

text \<open>
  The lines of a status that \<open>cleanedStatus\<close> keeps: for a status made of the lines
  \<open>ls\<close>, the result is made of the lines that name neither \<open>package.json\<close> nor
  \<open>CHANGELOG.md\<close> anywhere in the line. So two statuses, as \<open>gitExec\<close> returns
  them, that have the same lines apart from such lines give the same digest.
\<close>

lemma split_join_lines:
  assumes "ls \<noteq> []" and "\<forall>l\<in>set ls. CHR 0x0A \<notin> set l"
  shows "split_on [CHR 0x0A] (join_strings ls [CHR 0x0A]) = ls"
  using assms
proof (induction ls "[CHR 0x0A]" rule: join_strings.induct)
  case 1
  then show ?case by simp
next
  case (2 x)
  then have "\<not> sublist [CHR 0x0A] x"
    by (auto simp: sublist_def)
  then show ?case by (simp add: split_on_none)
next
  case (3 x y ys)
  have "\<not> sublist [CHR 0x0A] (x @ butlast [CHR 0x0A])"
    using "3.prems" by (auto simp: sublist_def)
  then have "split_on [CHR 0x0A] (x @ [CHR 0x0A] @ join_strings (y # ys) [CHR 0x0A])
               = x # split_on [CHR 0x0A] (join_strings (y # ys) [CHR 0x0A])"
    by (intro split_on_first) simp_all
  with 3 show ?case by simp
qed

lemma cleanedStatus_of_lines:
  assumes "ls \<noteq> []" and "\<forall>l\<in>set ls. CHR 0x0A \<notin> set l"
  shows "cleanedStatus (join_strings ls [CHR 0x0A])
           = join_strings
               (filter (\<lambda>l. \<not> (includes_str l ''package.json'' \<or> includes_str l ''CHANGELOG.md'')) ls)
               [CHR 0x0A]"
  using split_join_lines[OF assms] by (simp add: cleanedStatus_def split_str_def)

lemma gitStatusHash_ignores_excluded_lines:
  assumes "gitExec spawn1 [''rev-parse'', ''--revs-only'', ''HEAD''] (Some dir) = ([], Inr commit)"
    and "gitExec spawn2 [''rev-parse'', ''--revs-only'', ''HEAD''] (Some dir) = ([], Inr commit)"
    and "gitExec spawn1 [''status'', ''--porcelain''] (Some dir) = ([], Inr (join_strings ls1 [CHR 0x0A]))"
    and "gitExec spawn2 [''status'', ''--porcelain''] (Some dir) = ([], Inr (join_strings ls2 [CHR 0x0A]))"
    and "ls1 \<noteq> []" "ls2 \<noteq> []" "\<forall>l\<in>set ls1 \<union> set ls2. CHR 0x0A \<notin> set l"
    and "filter (\<lambda>l. \<not> (includes_str l ''package.json'' \<or> includes_str l ''CHANGELOG.md'')) ls1
         = filter (\<lambda>l. \<not> (includes_str l ''package.json'' \<or> includes_str l ''CHANGELOG.md'')) ls2"
  shows "gitStatusHash d spawn1 dir = gitStatusHash d spawn2 dir"
proof -
  have "cleanedStatus (join_strings ls1 [CHR 0x0A]) = cleanedStatus (join_strings ls2 [CHR 0x0A])"
    using assms(5-8) by (simp add: cleanedStatus_of_lines)
  then show ?thesis
    using assms(1-4) by (simp add: gitStatusHash_def and_then_def)
qed

text \<open>
  C3 at a failing input. Two states of a Gradle repository at the same commit: a clean
  working tree, and one in which only the manifest \<open>build.gradle\<close> is modified. The
  line of \<open>build.gradle\<close> is not removed from the status, so the digest is taken of
  two different texts.
\<close>

theorem gitStatusHash_build_gradle_line_is_hashed:
  "gitStatusHash d (git_state example_commit []) dir = ([], Inr (d example_commit))
   \<and> gitStatusHash d (git_state example_commit ('' M build.gradle'' @ [CHR 0x0A])) dir
       = ([], Inr (d (example_commit @ ''M build.gradle'')))"
proof -
  have c: "trim (replace_trailing_escapes (example_commit @ [CHR 0x0A])) = example_commit"
    by code_simp
  have s1: "cleanedStatus (trim (replace_trailing_escapes [])) = []"
    by code_simp
  have s2: "cleanedStatus (trim (replace_trailing_escapes ('' M build.gradle'' @ [CHR 0x0A]))) = ''M build.gradle''"
    by code_simp
  show ?thesis
    using c s1 s2 by (simp add: gitStatusHash_def gitExec_def git_state_def and_then_def)
qed

text \<open>
  C10 at a failing input. Two states at the same commit whose status differs only in
  the line of \<open>package.json\<close>. \<open>gitExec\<close> trims the whole output, so the first line
  of the status loses its leading space: the line of \<open>src/a.ts\<close> is hashed without
  the space when it is the first line and with it when the line of \<open>package.json\<close>
  stands before it. The digest is taken of two different texts.
\<close>

theorem gitStatusHash_package_json_line_shifts_hashed_text:
  "gitStatusHash d (git_state example_commit ('' M src/a.ts'' @ [CHR 0x0A])) dir
       = ([], Inr (d (example_commit @ ''M src/a.ts'')))
   \<and> gitStatusHash d (git_state example_commit
         ('' M package.json'' @ [CHR 0x0A] @ '' M src/a.ts'' @ [CHR 0x0A])) dir
       = ([], Inr (d (example_commit @ '' M src/a.ts'')))"
proof -
  have c: "trim (replace_trailing_escapes (example_commit @ [CHR 0x0A])) = example_commit"
    by code_simp
  have s1: "cleanedStatus (trim (replace_trailing_escapes ('' M src/a.ts'' @ [CHR 0x0A]))) = ''M src/a.ts''"
    by code_simp
  have s2: "cleanedStatus (trim (replace_trailing_escapes
              ('' M package.json'' @ [CHR 0x0A] @ '' M src/a.ts'' @ [CHR 0x0A]))) = '' M src/a.ts''"
    by code_simp
  show ?thesis
    using c s1 s2 by (simp add: gitStatusHash_def gitExec_def git_state_def and_then_def)
qed

section \<open>Claims about the Gradle plugin\<close>

text \<open>
  C9. In the store that \<open>initialize\<close> returns with a project, the workspaces of the
  project are the project itself followed by its child workspaces; the project of the
  project is the project itself and the project of every child is that project, so
  following the reference from any workspace ends at the root after one step. The
  children stand for the candidate paths whose manifest loads and is not private, in
  the order of the paths.
\<close>

theorem initialize_workspaces_root_first:
  assumes "initialize w h init = Inr (h', Some p)"
  shows "\<exists>children. workspaces h' p = Some (p # children)
           \<and> get_project h' p = Some p
           \<and> (\<forall>c\<in>set children. get_project h' c = Some p)
           \<and> map (\<lambda>c. map_option relativeCwd (object_at h' c)) children
               = map Some (filter (accepted w (cwd init)) (candidate_paths w init))"
proof -
  from initialize_result[OF assms] obtain mc new where
    p: "p = length h" and
    h': "h' = h @ \<lparr>project_field = Some p, manifestContent = mc, relativeCwd = ''.'',
                    as_project = Some \<lparr>cwd_field = cwd init, config_field = init,
                                       childWorkspaces = [Suc p..<Suc p + length new]\<rparr>\<rparr> # new" and
    paths: "map relativeCwd new = filter (accepted w (cwd init)) (candidate_paths w init)" and
    kids: "\<forall>ob\<in>set new. project_field ob = Some p \<and> as_project ob = None
                 \<and> manifest_name (manifest (manifestContent ob)) \<noteq> None
                 \<and> manifest_name (manifest (manifestContent ob)) \<noteq> Some []"
    by blast
  let ?children = "[Suc p..<Suc p + length new]"
  have at_p: "object_at h' p = Some \<lparr>project_field = Some p, manifestContent = mc, relativeCwd = ''.'',
                    as_project = Some \<lparr>cwd_field = cwd init, config_field = init,
                                       childWorkspaces = ?children\<rparr>\<rparr>"
    using store_lookup(1)[OF h'] p by simp
  have at_c: "\<And>i. i < length new \<Longrightarrow> object_at h' (Suc (p + i)) = Some (new ! i)"
    using store_lookup(2)[OF h'] p by simp
  have 1: "workspaces h' p = Some (p # ?children)"
    using at_p by (simp add: workspaces_def)
  have 2: "get_project h' p = Some p"
    using at_p by (simp add: get_project_def)
  have 3: "\<forall>c\<in>set ?children. get_project h' c = Some p"
  proof
    fix c assume "c \<in> set ?children"
    then obtain i where i: "c = Suc p + i" "i < length new"
      by (auto simp: le_iff_add)
    then have "new ! i \<in> set new" by simp
    with kids have "project_field (new ! i) = Some p" "as_project (new ! i) = None" by auto
    with at_c[OF i(2)] i(1) show "get_project h' c = Some p"
      by (simp add: get_project_def)
  qed
  have 4: "map (\<lambda>c. map_option relativeCwd (object_at h' c)) ?children = map Some (map relativeCwd new)"
    by (rule nth_equalityI) (simp_all add: at_c del: upt_Suc)
  show ?thesis
    using 1 2 3 4 paths by (intro exI[of _ ?children]) simp
qed

theorem initialize_workspaces_root_first_witness:
  "initialize (monorepo_world nameless_private_manifest_text) [] example_init = Inr (monorepo_store, Some 0)
   \<and> (\<exists>children. workspaces monorepo_store 0 = Some (0 # children)
           \<and> get_project monorepo_store 0 = Some 0
           \<and> (\<forall>c\<in>set children. get_project monorepo_store c = Some 0)
           \<and> map (\<lambda>c. map_option relativeCwd (object_at monorepo_store c)) children
               = map Some (filter (accepted (monorepo_world nameless_private_manifest_text) (cwd example_init))
                             (candidate_paths (monorepo_world nameless_private_manifest_text) example_init)))
   \<and> workspaces monorepo_store 0 = Some [0, 1]"
proof -
  have i: "initialize (monorepo_world nameless_private_manifest_text) [] example_init
             = Inr (monorepo_store, Some 0)"
    by code_simp
  have w: "workspaces monorepo_store 0 = Some [0, 1]"
    by code_simp
  show ?thesis
    using i w initialize_workspaces_root_first[OF i] by simp
qed

text \<open>
  C7. For every workspace of an initialized project, the project itself included,
  \<open>tagPrefix\<close> is the configured \<open>versionTagPrefix\<close> followed by the package name of
  the workspace and \<open>@\<close> when \<open>independentVersioning\<close> is set, and the configured
  \<open>versionTagPrefix\<close> alone when it is not. The configuration is the one that
  \<open>initialize\<close> was given; a child workspace reaches it through its project.
\<close>

theorem tagPrefix_of_workspace:
  assumes "initialize w h init = Inr (h', Some p)"
    and "workspaces h' p = Some ws"
    and "a \<in> set ws"
  shows "\<exists>name. packageName h' a = Some name
           \<and> tagPrefix h' a =
               Some (if independentVersioning (options init)
                     then versionTagPrefix (options init) @ name @ ''@''
                     else versionTagPrefix (options init))"
proof -
  from initialize_result[OF assms(1)] obtain mc new where
    p: "p = length h" and
    h': "h' = h @ \<lparr>project_field = Some p, manifestContent = mc, relativeCwd = ''.'',
                    as_project = Some \<lparr>cwd_field = cwd init, config_field = init,
                                       childWorkspaces = [Suc p..<Suc p + length new]\<rparr>\<rparr> # new" and
    root: "manifest_name (manifest mc) \<noteq> None" and
    kids: "\<forall>ob\<in>set new. project_field ob = Some p \<and> as_project ob = None
                 \<and> manifest_name (manifest (manifestContent ob)) \<noteq> None
                 \<and> manifest_name (manifest (manifestContent ob)) \<noteq> Some []"
    by blast
  have at_p: "object_at h' p = Some \<lparr>project_field = Some p, manifestContent = mc, relativeCwd = ''.'',
                    as_project = Some \<lparr>cwd_field = cwd init, config_field = init,
                                       childWorkspaces = [Suc p..<Suc p + length new]\<rparr>\<rparr>"
    using store_lookup(1)[OF h'] p by simp
  have at_c: "\<And>i. i < length new \<Longrightarrow> object_at h' (Suc (p + i)) = Some (new ! i)"
    using store_lookup(2)[OF h'] p by simp
  have ws: "ws = p # [Suc p..<Suc p + length new]"
    using assms(2) at_p by (simp add: workspaces_def)
  have cfg_p: "get_config h' p = Some init"
    using at_p by (simp add: get_config_def get_project_def)
  show ?thesis
  proof (cases "a = p")
    case True
    from root obtain name where "manifest_name (manifest mc) = Some name" by auto
    then have "packageName h' a = Some name"
      using True at_p by (simp add: packageName_def)
    then show ?thesis using True cfg_p by (simp add: tagPrefix_def)
  next
    case False
    with assms(3) ws obtain i where i: "a = Suc p + i" "i < length new"
      by (auto simp: le_iff_add)
    then have "new ! i \<in> set new" by simp
    with kids have k: "project_field (new ! i) = Some p" "as_project (new ! i) = None"
      "manifest_name (manifest (manifestContent (new ! i))) \<noteq> None" by auto
    then obtain name where "manifest_name (manifest (manifestContent (new ! i))) = Some name" by auto
    then have "packageName h' a = Some name"
      using at_c[OF i(2)] i(1) by (simp add: packageName_def)
    moreover have "get_config h' a = Some init"
      using at_c[OF i(2)] i(1) k at_p by (simp add: get_config_def get_project_def)
    ultimately show ?thesis by (simp add: tagPrefix_def)
  qed
qed

theorem tagPrefix_of_workspace_witness:
  "initialize (monorepo_world nameless_private_manifest_text) [] example_init = Inr (monorepo_store, Some 0)
   \<and> workspaces monorepo_store 0 = Some [0, 1]
   \<and> 1 \<in> set [0, 1 :: nat]
   \<and> (\<exists>name. packageName monorepo_store 1 = Some name
           \<and> tagPrefix monorepo_store 1 =
               Some (if independentVersioning (options example_init)
                     then versionTagPrefix (options example_init) @ name @ ''@''
                     else versionTagPrefix (options example_init)))
   \<and> tagPrefix monorepo_store 1 = Some ''vpkg-a@''"
proof -
  have i: "initialize (monorepo_world nameless_private_manifest_text) [] example_init
             = Inr (monorepo_store, Some 0)"
    by code_simp
  have w: "workspaces monorepo_store 0 = Some [0, 1]"
    by code_simp
  have m: "1 \<in> set [0, 1 :: nat]"
    by simp
  have t: "tagPrefix monorepo_store 1 = Some ''vpkg-a@''"
    by code_simp
  show ?thesis
    using i w t tagPrefix_of_workspace[OF i w m] by simp
qed

text \<open>
  C5 at a failing input. In a directory without \<open>build.gradle\<close>, \<open>readFile\<close> rejects
  and nothing catches the error: \<open>initialize\<close> throws it and does not return \<open>null\<close>.
\<close>

theorem initialize_throws_without_manifest:
  "initialize empty_world [] example_init = Inl (SystemError ''ENOENT'' ''/repo/build.gradle'')"
  by code_simp

text \<open>
  C8. The manifest of the Gradle plugin is the file \<open>build.gradle\<close> of the folder,
  read as JSON: a manifest that \<open>loadGradleBuildFile\<close> returns is the value that
  \<open>JSON.parse\<close> gives for the text of that file; when the text of the file is not
  JSON, \<open>loadGradleBuildFile\<close> throws the \<open>SyntaxError\<close> and returns no manifest;
  and \<open>persistGradleBuildFile\<close> leaves in that file the text that \<open>JSON.stringify\<close>
  gives for the manifest, with a line feed after it when \<open>eofInEnd\<close> is set.
\<close>

theorem build_gradle_is_read_and_written_as_JSON:
  "(loadGradleBuildFile w folder = Inr (Some mc) \<longrightarrow>
      (\<exists>str. readFile w (path_join folder ''build.gradle'') = Inr str
             \<and> JSON_parse str = Some (JObject (manifest mc))))
   \<and> (readFile w (path_join folder ''build.gradle'') = Inr str' \<and> JSON_parse str' = None \<longrightarrow>
        loadGradleBuildFile w folder = Inl (SyntaxError ''JSON.parse''))
   \<and> (persistGradleBuildFile w folder mc' = Inr w' \<longrightarrow>
        readFile w' (path_join folder ''build.gradle'')
          = Inr (JSON_stringify (JObject (manifest mc')) @ (if eofInEnd mc' then [CHR 0x0A] else [])))"
proof (intro conjI impI)
  assume "loadGradleBuildFile w folder = Inr (Some mc)"
  from loadGradleBuildFile_Some[OF this]
  show "\<exists>str. readFile w (path_join folder ''build.gradle'') = Inr str
             \<and> JSON_parse str = Some (JObject (manifest mc))"
    by (auto simp: GRADLE_MANIFEST_NAME_def)
next
  assume "readFile w (path_join folder ''build.gradle'') = Inr str' \<and> JSON_parse str' = None"
  then show "loadGradleBuildFile w folder = Inl (SyntaxError ''JSON.parse'')"
    by (simp add: loadGradleBuildFile_def GRADLE_MANIFEST_NAME_def)
next
  assume "persistGradleBuildFile w folder mc' = Inr w'"
  then show "readFile w' (path_join folder ''build.gradle'')
          = Inr (JSON_stringify (JObject (manifest mc')) @ (if eofInEnd mc' then [CHR 0x0A] else []))"
    by (auto simp: persistGradleBuildFile_def writeFile_def readFile_def GRADLE_MANIFEST_NAME_def
             split: option.splits)
qed

theorem build_gradle_is_read_and_written_as_JSON_witness:
  "loadGradleBuildFile single_package_world ''/repo''
     = Inr (Some \<lparr>manifest = [(''name'', JString ''app''), (''version'', JString ''1.0.0'')], eofInEnd = False\<rparr>)
   \<and> (\<exists>str. readFile single_package_world (path_join ''/repo'' ''build.gradle'') = Inr str
          \<and> JSON_parse str = Some (JObject [(''name'', JString ''app''), (''version'', JString ''1.0.0'')]))
   \<and> readFile native_gradle_world (path_join ''/repo'' ''build.gradle'') = Inr ''plugins { id 'java' }''
   \<and> JSON_parse ''plugins { id 'java' }'' = None
   \<and> loadGradleBuildFile native_gradle_world ''/repo'' = Inl (SyntaxError ''JSON.parse'')
   \<and> text_after ([], persistGradleBuildFile single_package_world ''/repo''
          \<lparr>manifest = [(''name'', JString ''app''), (''version'', JString ''1.0.1'')], eofInEnd = False\<rparr>)
        (path_join ''/repo'' ''build.gradle'')
       = Inr (written_manifest_text ''1.0.1'')"
proof -
  let ?mc = "\<lparr>manifest = [(''name'', JString ''app''), (''version'', JString ''1.0.0'')], eofInEnd = False\<rparr>"
  let ?mc' = "\<lparr>manifest = [(''name'', JString ''app''), (''version'', JString ''1.0.1'')], eofInEnd = False\<rparr>"
  have l: "loadGradleBuildFile single_package_world ''/repo'' = Inr (Some ?mc)"
    by code_simp
  have r: "readFile native_gradle_world (path_join ''/repo'' ''build.gradle'') = Inr ''plugins { id 'java' }''"
    by code_simp
  have n: "JSON_parse ''plugins { id 'java' }'' = None"
    by code_simp
  obtain w' where p: "persistGradleBuildFile single_package_world ''/repo'' ?mc' = Inr w'"
    by (auto simp: persistGradleBuildFile_def writeFile_def single_package_world_def)
  have s: "JSON_stringify (JObject (manifest ?mc')) @ (if eofInEnd ?mc' then [CHR 0x0A] else [])
             = written_manifest_text ''1.0.1''"
    by code_simp
  note thm1 = build_gradle_is_read_and_written_as_JSON[where w=single_package_world and folder="''/repo''"
      and mc="?mc" and mc'="?mc'" and w'=w' and str'="[]"]
  note thm2 = build_gradle_is_read_and_written_as_JSON[where w=native_gradle_world and folder="''/repo''"
      and str'="''plugins { id 'java' }''" and mc="?mc" and mc'="?mc'" and w'=w']
  have a: "\<exists>str. readFile single_package_world (path_join ''/repo'' ''build.gradle'') = Inr str
          \<and> JSON_parse str = Some (JObject [(''name'', JString ''app''), (''version'', JString ''1.0.0'')])"
    using thm1 l by simp
  have b: "loadGradleBuildFile native_gradle_world ''/repo'' = Inl (SyntaxError ''JSON.parse'')"
    using thm2 r n by simp
  have c: "readFile w' (path_join ''/repo'' ''build.gradle'') = Inr (written_manifest_text ''1.0.1'')"
    using thm1 p s by simp
  show ?thesis
    using l a r n b c p by (simp add: text_after_def)
qed

text \<open>
  C1, amended. A candidate whose manifest loads has a name that is a string; let the
  name be empty. If the manifest is not marked private, the constructor throws the
  error that names the path, and \<open>initialize\<close> throws: the candidate is not left out
  silently. If the manifest is marked private, the candidate is left out before the
  constructor runs, without any error. (A manifest whose \<open>name\<close> is missing or is
  not a string does not load at all and is left out in the same way.)
\<close>

theorem nameless_candidate_throws_unless_private:
  assumes "path \<in> set (candidate_paths w init)"
    and "loadGradleBuildFile w (path_join (cwd init) path) = Inr (Some cmc)"
    and "manifest_name (manifest cmc) = Some []"
  shows "(map_of (manifest cmc) ''private'' \<noteq> Some (JBool True) \<longrightarrow>
            load_workspace w hs p (cwd init) path = Inl (invalid_manifest path)
            \<and> (\<exists>e. initialize w h init = Inl e))
       \<and> (map_of (manifest cmc) ''private'' = Some (JBool True) \<longrightarrow>
            load_workspace w hs p (cwd init) path = Inr (hs, None))"
proof (intro conjI impI)
  assume np: "map_of (manifest cmc) ''private'' \<noteq> Some (JBool True)"
  have lw: "\<And>hs p. load_workspace w hs p (cwd init) path = Inl (invalid_manifest path)"
    using assms(2,3) np by (simp add: load_workspace_def new_GradleWorkspace_def)
  then show "load_workspace w hs p (cwd init) path = Inl (invalid_manifest path)" .
  from assms(1) have "\<exists>mc patterns. loadGradleBuildFile w (cwd init) = Inr (Some mc)
      \<and> manifest_workspaces (manifest mc) = Some patterns
      \<and> path \<in> set (glob w patterns (cwd init))"
  proof (cases "loadGradleBuildFile w (cwd init)")
    case (Inl e)
    with assms(1) show ?thesis by (simp add: candidate_paths_def)
  next
    case (Inr r)
    show ?thesis
    proof (cases r)
      case None
      with assms(1) Inr show ?thesis by (simp add: candidate_paths_def)
    next
      case (Some mc)
      show ?thesis
      proof (cases "manifest_workspaces (manifest mc)")
        case None
        with assms(1) Inr Some show ?thesis by (simp add: candidate_paths_def)
      next
        case (Some patterns)
        with assms(1) Inr \<open>r = Some mc\<close> show ?thesis by (simp add: candidate_paths_def)
      qed
    qed
  qed
  then obtain mc patterns where
    ld: "loadGradleBuildFile w (cwd init) = Inr (Some mc)" and
    pt: "manifest_workspaces (manifest mc) = Some patterns" and
    mem: "path \<in> set (glob w patterns (cwd init))"
    by blast
  show "\<exists>e. initialize w h init = Inl e"
  proof (cases "new_GradleProject h (cwd init) mc init")
    case (Inl e)
    then show ?thesis using ld by (simp add: initialize_def)
  next
    case (Inr res)
    obtain h1 project where res: "res = (h1, project)" by (cases res)
    from load_workspaces_fails[OF mem, of w project "cwd init" h1] lw
    obtain e where "load_workspaces w h1 project (cwd init) (glob w patterns (cwd init)) = Inl e"
      by blast
    then show ?thesis using ld pt Inr res by (simp add: initialize_def)
  qed
next
  assume "map_of (manifest cmc) ''private'' = Some (JBool True)"
  then show "load_workspace w hs p (cwd init) path = Inr (hs, None)"
    using assms(2) by (simp add: load_workspace_def)
qed

theorem nameless_candidate_throws_unless_private_witness:
  "''packages/b'' \<in> set (candidate_paths (monorepo_world nameless_manifest_text) example_init)
   \<and> loadGradleBuildFile (monorepo_world nameless_manifest_text) (path_join (cwd example_init) ''packages/b'')
       = Inr (Some \<lparr>manifest = [(''name'', JString [])], eofInEnd = False\<rparr>)
   \<and> manifest_name (manifest \<lparr>manifest = [(''name'', JString [])], eofInEnd = False\<rparr>) = Some []
   \<and> map_of (manifest \<lparr>manifest = [(''name'', JString [])], eofInEnd = False\<rparr>) ''private'' \<noteq> Some (JBool True)
   \<and> load_workspace (monorepo_world nameless_manifest_text) [] 0 (cwd example_init) ''packages/b''
       = Inl (invalid_manifest ''packages/b'')
   \<and> (\<exists>e. initialize (monorepo_world nameless_manifest_text) [] example_init = Inl e)
   \<and> initialize (monorepo_world nameless_manifest_text) [] example_init = Inl (invalid_manifest ''packages/b'')"
proof -
  let ?w = "monorepo_world nameless_manifest_text"
  let ?cmc = "\<lparr>manifest = [(''name'', JString [])], eofInEnd = False\<rparr>"
  have c: "''packages/b'' \<in> set (candidate_paths ?w example_init)"
    by code_simp
  have l: "loadGradleBuildFile ?w (path_join (cwd example_init) ''packages/b'') = Inr (Some ?cmc)"
    by code_simp
  have n: "manifest_name (manifest ?cmc) = Some []"
    by code_simp
  have p: "map_of (manifest ?cmc) ''private'' \<noteq> Some (JBool True)"
    by simp
  have i: "initialize ?w [] example_init = Inl (invalid_manifest ''packages/b'')"
    by code_simp
  show ?thesis
    using c l n p i
      nameless_candidate_throws_unless_private[OF c l n, where hs="[]" and p=0 and h="[]"]
    by simp
qed

text \<open>
  C1 as stated fails: the error does depend on the private flag. The manifest of
  \<open>packages/b\<close> loads, has an empty name and is marked private; \<open>initialize\<close> returns
  the project with the workspace of \<open>packages/a\<close> alone, and no error.
\<close>

theorem nameless_private_candidate_counterexample:
  "loadGradleBuildFile (monorepo_world nameless_private_manifest_text) ''/repo/packages/b''
     = Inr (Some \<lparr>manifest = [(''name'', JString []), (''private'', JBool True)], eofInEnd = False\<rparr>)
   \<and> initialize (monorepo_world nameless_private_manifest_text) [] example_init
       = Inr (monorepo_store, Some 0)"
  by code_simp




end
